theory Spec2Isabelle
  imports Main "HOL-Library.Sublist"
begin

section \<open>The file system seen by server.js\<close>

text \<open>
  The core of \<^verbatim>\<open>server.js\<close> (ensureBackup, restoreOriginal, readTextFromPath,
  injectBlock, injectCode) only talks to the file system through a handful of
  \<^verbatim>\<open>fs.promises\<close> calls.  A file system state maps a path to the node found there:
  a regular file with its text and permission bits, or a node that is not a regular file
  (a directory).  File text is the decoded text of the file: a list of characters.  The
  name space is flat: the only directory the code creates is \<^verbatim>\<open>BACKUP_DIR\<close>.
\<close>

type_synonym path = string

datatype node = File (content: string) (mode: nat) | Dir

type_synonym fs = "path \<Rightarrow> node option"

text \<open>
  Every \<^verbatim>\<open>throw\<close> of the source and every rejection of an fs call is a value.
  The four \<^verbatim>\<open>new Error(...)\<close> of the source carry a fixed message and the
  interpolated path or marker; the message text is the constructor's name.
\<close>

datatype error =
    ENOENT path                \<comment> \<open>fs call on a path that does not exist\<close>
  | EISDIR path                \<comment> \<open>fs call that needs a regular file, on a directory\<close>
  | EEXIST path                \<comment> \<open>mkdir on a path held by a regular file\<close>
  | SystemFileNotFound path    \<comment> \<open>ensureBackup, line 90: system file not found: INDEX_FILE\<close>
  | BackupNotFound             \<comment> \<open>restoreOriginal, line 101: backup file not found\<close>
  | PathIsNotFile path         \<comment> \<open>readTextFromPath, line 110: path is not a file: filePath\<close>
  | InsertionPointNotFound string
                               \<comment> \<open>injectBlock, line 153: insertion point not found: marker\<close>

text \<open>An awaited call on state \<open>s\<close> settles to a value or an error, and leaves a state.\<close>

type_synonym 'a io = "fs \<Rightarrow> (error + 'a) \<times> fs"

definition TARGET_DIR :: path where
  "TARGET_DIR = ''/usr/trim/www''"

definition INDEX_FILE :: path where
  "INDEX_FILE = TARGET_DIR @ ''/index.html''"

definition BACKUP_DIR :: path where
  "BACKUP_DIR = ''/usr/cqshbak''"

definition BACKUP_FILE :: path where
  "BACKUP_FILE = BACKUP_DIR @ ''/index.html.original''"

subsection \<open>The fs calls\<close>

text \<open>\<^verbatim>\<open>fsp.access(p, F_OK)\<close>: resolves when something exists at \<open>p\<close>.\<close>

definition access :: "path \<Rightarrow> fs \<Rightarrow> bool" where
  "access p s = (s p \<noteq> None)"

text \<open>\<^verbatim>\<open>fsp.mkdir(p, {recursive: true})\<close>: nothing to do on a directory, an error on a
  regular file.\<close>

definition mkdir_recursive :: "path \<Rightarrow> unit io" where
  "mkdir_recursive p s =
     (case s p of
        Some (File c m) \<Rightarrow> (Inl (EEXIST p), s)
      | Some Dir \<Rightarrow> (Inr (), s)
      | None \<Rightarrow> (Inr (), s(p \<mapsto> Dir)))"

text \<open>\<^verbatim>\<open>fsp.copyFile(src, dst)\<close>: the source must be a regular file; the destination is
  created or overwritten, and receives the source's text and permission bits.\<close>

definition copyFile :: "path \<Rightarrow> path \<Rightarrow> unit io" where
  "copyFile src dst s =
     (case s src of
        None \<Rightarrow> (Inl (ENOENT src), s)
      | Some Dir \<Rightarrow> (Inl (EISDIR src), s)
      | Some (File c m) \<Rightarrow>
          (case s dst of
             Some Dir \<Rightarrow> (Inl (EISDIR dst), s)
           | _ \<Rightarrow> (Inr (), s(dst \<mapsto> File c m))))"

text \<open>\<^verbatim>\<open>fsp.chmod(p, m)\<close>; the permission bits of a directory are not part of the state.\<close>

definition chmod :: "path \<Rightarrow> nat \<Rightarrow> unit io" where
  "chmod p m s =
     (case s p of
        None \<Rightarrow> (Inl (ENOENT p), s)
      | Some Dir \<Rightarrow> (Inr (), s)
      | Some (File c m0) \<Rightarrow> (Inr (), s(p \<mapsto> File c m)))"

text \<open>\<^verbatim>\<open>fsp.unlink(p)\<close>.\<close>

definition unlink :: "path \<Rightarrow> unit io" where
  "unlink p s =
     (case s p of
        None \<Rightarrow> (Inl (ENOENT p), s)
      | Some Dir \<Rightarrow> (Inl (EISDIR p), s)
      | Some (File c m) \<Rightarrow> (Inr (), s(p := None)))"

text \<open>\<^verbatim>\<open>await fsp.unlink(p).catch(() => {})\<close>: the outcome is dropped.\<close>

definition unlink_quiet :: "path \<Rightarrow> fs \<Rightarrow> fs" where
  "unlink_quiet p s = snd (unlink p s)"

text \<open>The permission bits \<^verbatim>\<open>0o644\<close> of lines 104 and 201, and the bits
  \<^verbatim>\<open>0o666\<close> that \<^verbatim>\<open>fs.createWriteStream\<close> gives a file it creates.\<close>

definition MODE_644 :: nat where
  "MODE_644 = 420"

definition MODE_666 :: nat where
  "MODE_666 = 438"

section \<open>Backup Manager\<close>

text \<open>\<^verbatim>\<open>ensureBackup\<close> (lines 81-95).  The result is the field \<^verbatim>\<open>created\<close>.\<close>

definition ensureBackup :: "bool io" where
  "ensureBackup s =
     (case mkdir_recursive BACKUP_DIR s of
        (Inl e, s1) \<Rightarrow> (Inl e, s1)
      | (Inr u, s1) \<Rightarrow>
          if access BACKUP_FILE s1 then (Inr False, s1)
          else if \<not> access INDEX_FILE s1 then (Inl (SystemFileNotFound INDEX_FILE), s1)
          else (case copyFile INDEX_FILE BACKUP_FILE s1 of
                  (Inl e, s2) \<Rightarrow> (Inl e, s2)
                | (Inr u, s2) \<Rightarrow> (Inr True, s2)))"

text \<open>\<^verbatim>\<open>restoreOriginal\<close> (lines 97-105).\<close>

definition restoreOriginal :: "unit io" where
  "restoreOriginal s =
     (if \<not> access BACKUP_FILE s then (Inl BackupNotFound, s)
      else (case copyFile BACKUP_FILE INDEX_FILE s of
              (Inl e, s1) \<Rightarrow> (Inl e, s1)
            | (Inr u, s1) \<Rightarrow> chmod INDEX_FILE MODE_644 s1))"

section \<open>Content Patcher\<close>

text \<open>\<^verbatim>\<open>readTextFromPath\<close> (lines 107-113): \<^verbatim>\<open>fsp.stat\<close> rejects on a missing
  path, the function throws on a path that is not a regular file, and reads the whole
  text otherwise.  It does not change the state.\<close>

definition readTextFromPath :: "path \<Rightarrow> fs \<Rightarrow> error + string" where
  "readTextFromPath filePath s =
     (case s filePath of
        None \<Rightarrow> Inl (ENOENT filePath)
      | Some Dir \<Rightarrow> Inl (PathIsNotFile filePath)
      | Some (File c m) \<Rightarrow> Inr c)"

subsection \<open>Strings of the marker insertion\<close>

definition LF :: char where
  "LF = CHR 0x0A"

definition CR :: char where
  "CR = CHR 0x0D"

text \<open>
  The lines that \<^verbatim>\<open>readline\<close> (with \<^verbatim>\<open>crlfDelay: Infinity\<close>) hands to the loop of
  injectBlock.  As the Node.js documentation of the \<^verbatim>\<open>'line'\<close> event has it, an end of
  line is \<^verbatim>\<open>\n\<close>, \<^verbatim>\<open>\r\<close> or \<^verbatim>\<open>\r\n\<close>; with an infinite \<^verbatim>\<open>crlfDelay\<close> a
  \<^verbatim>\<open>\r\<close> followed by \<^verbatim>\<open>\n\<close> is always one end of line.  The text is cut at every end of
  line, the terminators are dropped, and what follows the last terminator is a line of
  its own when it is not empty.  \<open>buf\<close> is the line read so far.  The marker search and
  the cut of a line below work on the units of the text, whatever a unit stands for
  (a UTF-16 code unit in the source, a \<^typ>\<open>char\<close> here).
\<close>

fun readline_from :: "string \<Rightarrow> string \<Rightarrow> string list" where
  "readline_from buf [] = (if buf = [] then [] else [buf])"
| "readline_from buf (c # cs) =
     (if c = CR then
        (case cs of
           [] \<Rightarrow> [buf]
         | d # ds \<Rightarrow> if d = LF then buf # readline_from [] ds else buf # readline_from [] cs)
      else if c = LF then buf # readline_from [] cs
      else readline_from (buf @ [c]) cs)"

definition readline_lines :: "string \<Rightarrow> string list" where
  "readline_lines text = readline_from [] text"

text \<open>\<^verbatim>\<open>String.prototype.indexOf\<close>: the position of the first occurrence, or -1.\<close>

fun indexOf :: "string \<Rightarrow> string \<Rightarrow> int" where
  "indexOf [] marker = (if marker = [] then 0 else -1)"
| "indexOf (c # cs) marker =
     (if prefix marker (c # cs) then 0
      else (let i = indexOf cs marker in if i < 0 then -1 else i + 1))"

text \<open>\<^verbatim>\<open>String.prototype.includes\<close>.\<close>

definition includes_str :: "string \<Rightarrow> string \<Rightarrow> bool" where
  "includes_str line marker = (indexOf line marker \<noteq> -1)"

text \<open>\<^verbatim>\<open>Array.prototype.join\<close>.\<close>

fun join :: "string \<Rightarrow> string list \<Rightarrow> string" where
  "join sep [] = []"
| "join sep [x] = x"
| "join sep (x # y # ys) = x @ sep @ join sep (y # ys)"

subsection \<open>injectBlock\<close>

text \<open>
  The loop of lines 123-142 over the lines still to be read.  The loop's state is the
  flag \<^verbatim>\<open>inserted\<close> and the text written to the writer so far; \<open>beforeSeg\<close> and
  \<open>afterSeg\<close> are the source's \<^verbatim>\<open>before\<close> and \<^verbatim>\<open>after\<close>.
\<close>

fun scan :: "string \<Rightarrow> string list \<Rightarrow> string list \<Rightarrow> bool \<times> string \<Rightarrow> bool \<times> string" where
  "scan marker blockLines [] st = st"
| "scan marker blockLines (line # rest) (inserted, out) =
     (if \<not> inserted \<and> includes_str line marker then
        (let idx = nat (indexOf line marker);
             beforeSeg = take idx line;
             afterSeg = drop idx line;
             out1 = (if length beforeSeg > 0 then out @ beforeSeg @ [LF] else out);
             out2 = out1 @ join [LF] blockLines @ [LF];
             out3 = out2 @ afterSeg @ [LF]
         in scan marker blockLines rest (True, out3))
      else scan marker blockLines rest (inserted, out @ line @ [LF]))"

text \<open>
  \<^verbatim>\<open>injectBlock\<close> (lines 115-158).  The name of the scratch file is made from
  \<^verbatim>\<open>os.tmpdir()\<close>, \<^verbatim>\<open>Date.now()\<close> and \<^verbatim>\<open>Math.random()\<close>; the model takes it as
  the argument \<open>tempFile\<close>.  The reader is fed with the text that the input file has
  when the function is called.  Opening the writer creates the scratch file, or empties
  an existing one and keeps its permission bits (\<open>scratchMode\<close>).  When a stream cannot
  be opened the call fails; an error that leaves the loop skips the cleanup of lines
  151-157.
\<close>

definition scratchMode :: "node option \<Rightarrow> nat" where
  "scratchMode tmp = (case tmp of Some (File c0 m0) \<Rightarrow> m0 | _ \<Rightarrow> MODE_666)"

definition injectBlock :: "path \<Rightarrow> path \<Rightarrow> string \<Rightarrow> string list \<Rightarrow> unit io" where
  "injectBlock tempFile inputPath marker blockLines s =
     (case s tempFile of
        Some Dir \<Rightarrow> (Inl (EISDIR tempFile), s)
      | tmp \<Rightarrow>
          (case s inputPath of
             None \<Rightarrow> (Inl (ENOENT inputPath), s(tempFile \<mapsto> File [] (scratchMode tmp)))
           | Some Dir \<Rightarrow> (Inl (EISDIR inputPath), s(tempFile \<mapsto> File [] (scratchMode tmp)))
           | Some (File text m) \<Rightarrow>
               (case scan marker blockLines (readline_lines text) (False, []) of
                  (inserted, out) \<Rightarrow>
                    (let s1 = s(tempFile \<mapsto> File out (scratchMode tmp)) in
                     if \<not> inserted
                     then (Inl (InsertionPointNotFound marker), unlink_quiet tempFile s1)
                     else (case copyFile tempFile inputPath s1 of
                             (Inl e, s2) \<Rightarrow> (Inl e, s2)
                           | (Inr u, s2) \<Rightarrow> (Inr (), unlink_quiet tempFile s2))))))"

subsection \<open>injectCode\<close>

text \<open>The argument object of injectCode; a field is a string or \<^verbatim>\<open>null\<close>.\<close>

record payload =
  cssText :: "string option"
  jsText :: "string option"
  cssPath :: "string option"
  jsPath :: "string option"

text \<open>JavaScript truthiness of such a field: \<^verbatim>\<open>null\<close> and the empty string are
  falsy.\<close>

fun truthy :: "string option \<Rightarrow> bool" where
  "truthy None = False"
| "truthy (Some t) = (t \<noteq> [])"

text \<open>The two messages of the result object (lines 180 and 202).\<close>

datatype message = NoContentProvided | InjectionSucceeded

record inject_result =
  injected :: bool
  message :: message

text \<open>Lines 167-171 and 173-177: the final content of one channel.\<close>

definition finalContent :: "string option \<Rightarrow> string option \<Rightarrow> fs \<Rightarrow> error + string option" where
  "finalContent pathRef inlineText s =
     (if truthy pathRef then
        (case readTextFromPath (the pathRef) s of
           Inl e \<Rightarrow> Inl e
         | Inr t \<Rightarrow> Inr (Some t))
      else if truthy inlineText then Inr inlineText
      else Inr None)"

definition styleBlock :: "string \<Rightarrow> string list" where
  "styleBlock finalCss = [''<style>'', ''/* Injected CSS */'', finalCss, ''</style>'']"

definition scriptBlock :: "string \<Rightarrow> string list" where
  "scriptBlock finalJs = [''<script>'', ''// Injected JS'', finalJs, ''</script>'']"

text \<open>Lines 183-190 and 192-199: one guarded call of injectBlock on the Target File.\<close>

definition injectIf :: "path \<Rightarrow> string option \<Rightarrow> string \<Rightarrow> (string \<Rightarrow> string list) \<Rightarrow> unit io" where
  "injectIf tempFile final marker block s =
     (if truthy final then injectBlock tempFile INDEX_FILE marker (block (the final)) s
      else (Inr (), s))"

text \<open>
  Lines 164-202 of injectCode: what the call does once the Target File has been reset.
  \<open>temps\<close> holds the scratch file names of the two calls of injectBlock.
\<close>

definition injectPayload :: "payload \<Rightarrow> path \<times> path \<Rightarrow> inject_result io" where
  "injectPayload p temps s2 =
     (case finalContent (cssPath p) (cssText p) s2 of
        Inl e \<Rightarrow> (Inl e, s2)
      | Inr finalCss \<Rightarrow>
     (case finalContent (jsPath p) (jsText p) s2 of
        Inl e \<Rightarrow> (Inl e, s2)
      | Inr finalJs \<Rightarrow>
     if \<not> truthy finalCss \<and> \<not> truthy finalJs
     then (Inr \<lparr>injected = False, message = NoContentProvided\<rparr>, s2)
     else
     (case injectIf (fst temps) finalCss ''</head>'' styleBlock s2 of
        (Inl e, s3) \<Rightarrow> (Inl e, s3)
      | (Inr u, s3) \<Rightarrow>
     (case injectIf (snd temps) finalJs ''</body>'' scriptBlock s3 of
        (Inl e, s4) \<Rightarrow> (Inl e, s4)
      | (Inr u, s4) \<Rightarrow>
     (case chmod INDEX_FILE MODE_644 s4 of
        (Inl e, s5) \<Rightarrow> (Inl e, s5)
      | (Inr u, s5) \<Rightarrow>
          (Inr \<lparr>injected = True, message = InjectionSucceeded\<rparr>, s5))))))"

text \<open>\<^verbatim>\<open>injectCode\<close> (lines 160-203): lines 161 and 162, then the rest.\<close>

definition injectCode :: "payload \<Rightarrow> path \<times> path \<Rightarrow> inject_result io" where
  "injectCode p temps s =
     (case ensureBackup s of
        (Inl e, s1) \<Rightarrow> (Inl e, s1)
      | (Inr created, s1) \<Rightarrow>
     (case copyFile BACKUP_FILE INDEX_FILE s1 of
        (Inl e, s2) \<Rightarrow> (Inl e, s2)
      | (Inr u, s2) \<Rightarrow> injectPayload p temps s2))"

text \<open>Repeated calls of injectCode with the same payload, one pair of scratch names per
  call; the outcome of a call is dropped, as the state of the file system is what the
  next call finds.\<close>

fun injectCode_repeat :: "payload \<Rightarrow> (path \<times> path) list \<Rightarrow> fs \<Rightarrow> fs" where
  "injectCode_repeat p [] s = s"
| "injectCode_repeat p (t # ts) s = injectCode_repeat p ts (snd (injectCode p t s))"

section \<open>Notions used to state the properties\<close>

text \<open>The text made of the given lines, each followed by a single \<^verbatim>\<open>\n\<close>.\<close>

definition lines_text :: "string list \<Rightarrow> string" where
  "lines_text ls = concat (map (\<lambda>l. l @ [LF]) ls)"

text \<open>The marker insertion as a function of the text of the input file: the new text, or
  the error of line 153.\<close>

definition insertion :: "string \<Rightarrow> string list \<Rightarrow> string \<Rightarrow> error + string" where
  "insertion marker blockLines txt =
     (case scan marker blockLines (readline_lines txt) (False, []) of
        (inserted, out) \<Rightarrow> if inserted then Inr out else Inl (InsertionPointNotFound marker))"

text \<open>A regular file is found (what \<^verbatim>\<open>stats.isFile()\<close> tells).\<close>

fun isFile :: "node option \<Rightarrow> bool" where
  "isFile (Some (File c m)) = True"
| "isFile (Some Dir) = False"
| "isFile None = False"

text \<open>
  The pristine node of a state: the Backup File, or, as long as there is none, the Target
  File, which the first call of ensureBackup copies to the Backup File.
\<close>

definition pristine :: "fs \<Rightarrow> node option" where
  "pristine s = (case s BACKUP_FILE of None \<Rightarrow> s INDEX_FILE | Some n \<Rightarrow> Some n)"

text \<open>The state that lines 161 and 162 of injectCode leave.\<close>

definition resetTarget :: "fs \<Rightarrow> fs" where
  "resetTarget s = snd (copyFile BACKUP_FILE INDEX_FILE (snd (ensureBackup s)))"

text \<open>
  A name for a scratch file that is fresh in a state: nothing exists under it, and it is
  none of the three fixed paths.
\<close>

definition fresh :: "fs \<Rightarrow> path \<Rightarrow> bool" where
  "fresh s t = (s t = None \<and> t \<noteq> INDEX_FILE \<and> t \<noteq> BACKUP_FILE \<and> t \<noteq> BACKUP_DIR)"


section \<open>Paths and characters\<close>

lemma paths_distinct:
  "INDEX_FILE \<noteq> BACKUP_FILE" "INDEX_FILE \<noteq> BACKUP_DIR" "BACKUP_FILE \<noteq> BACKUP_DIR"
  "BACKUP_FILE \<noteq> INDEX_FILE" "BACKUP_DIR \<noteq> INDEX_FILE" "BACKUP_DIR \<noteq> BACKUP_FILE"
  by (simp_all add: INDEX_FILE_def BACKUP_FILE_def BACKUP_DIR_def TARGET_DIR_def)

lemma LF_newline: "LF = CHR ''\<newline>''"
  by (simp add: LF_def)

section \<open>indexOf and includes\<close>






section \<open>The lines of readline\<close>

lemma CR_neq_LF: "CR \<noteq> LF" "LF \<noteq> CR"
  by (simp_all add: CR_def LF_def)

lemma readline_from_CR_LF: "readline_from buf (CR # LF # ds) = buf # readline_from [] ds"
  by (simp del: readline_from.simps add: readline_from.simps(2)[of buf CR])

lemma readline_from_CR:
  "cs = [] \<or> hd cs \<noteq> LF \<Longrightarrow> readline_from buf (CR # cs) = buf # readline_from [] cs"
  by (cases cs) (simp_all del: readline_from.simps add: readline_from.simps(2)[of buf CR] readline_from.simps(1))

lemma readline_from_LF: "readline_from buf (LF # cs) = buf # readline_from [] cs"
  by (simp del: readline_from.simps add: readline_from.simps(2)[of buf LF] CR_neq_LF)

lemma readline_from_other:
  "c \<noteq> CR \<Longrightarrow> c \<noteq> LF \<Longrightarrow> readline_from buf (c # cs) = readline_from (buf @ [c]) cs"
  by (simp del: readline_from.simps add: readline_from.simps(2)[of buf c])

lemma readline_from_cases [case_names Nil CRLF CR LF Other]:
  assumes "\<And>buf. P buf []"
    and "\<And>buf ds. P [] ds \<Longrightarrow> P buf (CR # LF # ds)"
    and "\<And>buf cs. cs = [] \<or> hd cs \<noteq> LF \<Longrightarrow> P [] cs \<Longrightarrow> P buf (CR # cs)"
    and "\<And>buf cs. P [] cs \<Longrightarrow> P buf (LF # cs)"
    and "\<And>buf c cs. c \<noteq> CR \<Longrightarrow> c \<noteq> LF \<Longrightarrow> P (buf @ [c]) cs \<Longrightarrow> P buf (c # cs)"
  shows "P buf cs"
proof (induction cs arbitrary: buf rule: length_induct)
  case (1 xs)
  show ?case
  proof (cases xs)
    case Nil
    then show ?thesis using assms(1) by simp
  next
    case (Cons c cs)
    note xs = Cons
    show ?thesis
    proof (cases "c = CR")
      case True
      show ?thesis
      proof (cases "cs = [] \<or> hd cs \<noteq> LF")
        case True
        with \<open>c = CR\<close> xs 1 assms(3)[of cs buf] show ?thesis by simp
      next
        case False
        then obtain ds where "cs = LF # ds" by (cases cs) auto
        with \<open>c = CR\<close> xs 1 assms(2)[of ds buf] show ?thesis by simp
      qed
    next
      case False
      show ?thesis
      proof (cases "c = LF")
        case True
        with xs 1 assms(4)[of cs buf] show ?thesis by simp
      next
        case False
        with \<open>c \<noteq> CR\<close> xs 1 assms(5)[of c buf cs] show ?thesis by simp
      qed
    qed
  qed
qed

lemma readline_from_no_terminator:
  "CR \<notin> set buf \<Longrightarrow> LF \<notin> set buf \<Longrightarrow> l \<in> set (readline_from buf cs)
     \<Longrightarrow> CR \<notin> set l \<and> LF \<notin> set l"
proof (induction buf cs rule: readline_from_cases)
  case (Nil buf)
  then show ?case by (auto split: if_splits)
next
  case (CRLF buf ds)
  then show ?case by (auto simp del: readline_from.simps simp add: readline_from_CR_LF)
next
  case (CR buf cs)
  then show ?case by (auto simp del: readline_from.simps simp add: readline_from_CR)
next
  case (LF buf cs)
  then show ?case by (auto simp del: readline_from.simps simp add: readline_from_LF)
next
  case (Other buf c cs)
  then show ?case by (auto simp del: readline_from.simps simp add: readline_from_other)
qed

lemma readline_from_concat:
  "concat (readline_from buf cs) = buf @ filter (\<lambda>c. c \<noteq> CR \<and> c \<noteq> LF) cs"
proof (induction buf cs rule: readline_from_cases)
  case (Nil buf)
  then show ?case by simp
next
  case (CRLF buf ds)
  then show ?case by (simp del: readline_from.simps add: readline_from_CR_LF)
next
  case (CR buf cs)
  then show ?case by (simp del: readline_from.simps add: readline_from_CR)
next
  case (LF buf cs)
  then show ?case by (simp del: readline_from.simps add: readline_from_LF)
next
  case (Other buf c cs)
  then show ?case by (simp del: readline_from.simps add: readline_from_other)
qed

lemma readline_lines_no_terminator:
  "l \<in> set (readline_lines text) \<Longrightarrow> CR \<notin> set l \<and> LF \<notin> set l"
  unfolding readline_lines_def using readline_from_no_terminator[of "[]" l "text"] by simp

lemma readline_lines_concat:
  "concat (readline_lines text) = filter (\<lambda>c. c \<noteq> CR \<and> c \<noteq> LF) text"
  by (simp add: readline_lines_def readline_from_concat)




section \<open>The loop of injectBlock\<close>

lemma join_lines_text: "b \<noteq> [] \<Longrightarrow> join [LF] b @ [LF] = lines_text b"
  by (induction b rule: induct_list012) (simp_all add: lines_text_def)

lemma lines_text_append: "lines_text (xs @ ys) = lines_text xs @ lines_text ys"
  by (simp add: lines_text_def)


lemma scan_no_marker:
  "\<forall>l \<in> set ls. \<not> includes_str l marker
     \<Longrightarrow> scan marker b ls (False, out) = (False, out @ lines_text ls)"
  by (induction ls arbitrary: out) (simp_all add: lines_text_def)


section \<open>injectBlock on a regular file\<close>

lemma injectBlock_found:
  assumes "s inputPath = Some (File text m)" "tempFile \<noteq> inputPath" "s tempFile \<noteq> Some Dir"
    and "scan marker b (readline_lines text) (False, []) = (True, out)"
  shows "injectBlock tempFile inputPath marker b s =
     (Inr (), (s(inputPath \<mapsto> File out (scratchMode (s tempFile))))(tempFile := None))"
  using assms
  by (cases "s tempFile")
     (auto simp: injectBlock_def copyFile_def unlink_quiet_def unlink_def fun_upd_twist
           split: node.splits option.splits)

lemma injectBlock_not_found:
  assumes "s inputPath = Some (File text m)" "tempFile \<noteq> inputPath" "s tempFile \<noteq> Some Dir"
    and "scan marker b (readline_lines text) (False, []) = (False, out)"
  shows "injectBlock tempFile inputPath marker b s =
     (Inl (InsertionPointNotFound marker), s(tempFile := None))"
  using assms
  by (cases "s tempFile")
     (auto simp: injectBlock_def copyFile_def unlink_quiet_def unlink_def fun_upd_twist
           split: node.splits option.splits)


section \<open>Properties of the Backup Manager\<close>

text \<open>ensureBackup, case by case.\<close>

lemma ensureBackup_cases:
  "ensureBackup s =
     (if isFile (s BACKUP_DIR) then (Inl (EEXIST BACKUP_DIR), s)
      else if s BACKUP_FILE \<noteq> None then (Inr False, s(BACKUP_DIR \<mapsto> Dir))
      else (case s INDEX_FILE of
              None \<Rightarrow> (Inl (SystemFileNotFound INDEX_FILE), s(BACKUP_DIR \<mapsto> Dir))
            | Some Dir \<Rightarrow> (Inl (EISDIR INDEX_FILE), s(BACKUP_DIR \<mapsto> Dir))
            | Some (File c m) \<Rightarrow> (Inr True, s(BACKUP_DIR \<mapsto> Dir, BACKUP_FILE \<mapsto> File c m))))"
proof (cases "s BACKUP_DIR")
  case None
  then show ?thesis
    by (auto simp: ensureBackup_def mkdir_recursive_def access_def copyFile_def paths_distinct
        split: option.splits node.splits)
next
  case (Some n)
  then have upd: "n = Dir \<Longrightarrow> s(BACKUP_DIR \<mapsto> Dir) = s" by (auto simp: fun_upd_idem_iff)
  from Some upd show ?thesis
    by (cases n)
       (auto simp: ensureBackup_def mkdir_recursive_def access_def copyFile_def paths_distinct
        split: option.splits node.splits)
qed

lemma ensureBackup_target: "snd (ensureBackup s) INDEX_FILE = s INDEX_FILE"
  by (simp add: ensureBackup_cases paths_distinct split: option.splits node.splits)

lemma ensureBackup_twice:
  assumes "ensureBackup s = (r, s1)"
  shows "ensureBackup s1 = ((case r of Inl e \<Rightarrow> Inl e | Inr created \<Rightarrow> Inr False), s1)"
proof (cases "isFile (s BACKUP_DIR)")
  case True
  with assms have "s1 = s" "r = Inl (EEXIST BACKUP_DIR)" by (auto simp: ensureBackup_cases)
  with True show ?thesis by (simp add: ensureBackup_cases)
next
  case noFile: False
  show ?thesis
  proof (cases "s BACKUP_FILE")
    case (Some n)
    with noFile assms have "s1 = s(BACKUP_DIR \<mapsto> Dir)" "r = Inr False"
      by (auto simp: ensureBackup_cases)
    with Some show ?thesis by (simp add: ensureBackup_cases paths_distinct)
  next
    case None
    show ?thesis
    proof (cases "s INDEX_FILE")
      case tNone: None
      with None noFile assms have "s1 = s(BACKUP_DIR \<mapsto> Dir)" "r = Inl (SystemFileNotFound INDEX_FILE)"
        by (auto simp: ensureBackup_cases)
      with None tNone show ?thesis by (simp add: ensureBackup_cases paths_distinct)
    next
      case (Some n)
      show ?thesis
      proof (cases n)
        case Dir
        with Some None noFile assms have "s1 = s(BACKUP_DIR \<mapsto> Dir)" "r = Inl (EISDIR INDEX_FILE)"
          by (auto simp: ensureBackup_cases)
        with None Some Dir show ?thesis by (simp add: ensureBackup_cases paths_distinct)
      next
        case (File c m)
        with Some None noFile assms
        have "s1 = s(BACKUP_DIR \<mapsto> Dir, BACKUP_FILE \<mapsto> File c m)" "r = Inr True"
          by (auto simp: ensureBackup_cases)
        then show ?thesis by (simp add: ensureBackup_cases paths_distinct fun_upd_twist)
      qed
    qed
  qed
qed

text \<open>
  Claim C4.  Without a Backup File, restoreOriginal fails with the error "backup file not
  found" and the state is unchanged.  With a Backup File that is a regular file with text
  \<open>b\<close> (and a Target File path that is not a directory), the call succeeds, the Target
  File holds \<open>b\<close> with the permission bits \<^verbatim>\<open>0o644\<close>, and nothing else changes: the Backup
  File is as before.
\<close>

theorem restoreOriginal_spec:
  "(s BACKUP_FILE = None \<longrightarrow> restoreOriginal s = (Inl BackupNotFound, s))
 \<and> (s BACKUP_FILE = Some (File b mb) \<and> s INDEX_FILE \<noteq> Some Dir \<longrightarrow>
       restoreOriginal s = (Inr (), s(INDEX_FILE \<mapsto> File b MODE_644))
     \<and> snd (restoreOriginal s) INDEX_FILE = Some (File b MODE_644)
     \<and> snd (restoreOriginal s) BACKUP_FILE = s BACKUP_FILE)
 \<and> MODE_644 = 6 * 8 ^ 2 + 4 * 8 + 4"
  by (auto simp: restoreOriginal_def access_def copyFile_def chmod_def paths_distinct MODE_644_def
      split: option.splits node.splits)

theorem restoreOriginal_spec_witness:
  "restoreOriginal [INDEX_FILE \<mapsto> File ''patched'' 438] =
     (Inl BackupNotFound, [INDEX_FILE \<mapsto> File ''patched'' 438])
 \<and> restoreOriginal [BACKUP_FILE \<mapsto> File ''original'' 384, INDEX_FILE \<mapsto> File ''patched'' 438] =
     (Inr (), [BACKUP_FILE \<mapsto> File ''original'' 384, INDEX_FILE \<mapsto> File ''original'' 420])
 \<and> snd (restoreOriginal [BACKUP_FILE \<mapsto> File ''original'' 384, INDEX_FILE \<mapsto> File ''patched'' 438])
       BACKUP_FILE = Some (File ''original'' 384)"
  using restoreOriginal_spec[of "[INDEX_FILE \<mapsto> File ''patched'' 438]"]
    restoreOriginal_spec[of "[BACKUP_FILE \<mapsto> File ''original'' 384, INDEX_FILE \<mapsto> File ''patched'' 438]"
       "''original''" 384]
  by (simp add: paths_distinct MODE_644_def)

text \<open>
  Claim C5.  ensureBackup never changes the Target File, and running it twice leaves the
  state that running it once leaves; after a call that created the Backup File, the next
  call returns \<^verbatim>\<open>{created: false}\<close> and changes nothing.  When the backup directory can
  be made (its path is not a regular file): with a Backup File the call returns
  \<^verbatim>\<open>{created: false}\<close>, the only action is making sure of the directory (no action at
  all when the directory exists), and the Backup File is as before; without a Backup
  File and without a Target File the call fails with the error "system file not found";
  without a Backup File and with a Target File that is a regular file, the Backup File
  becomes a copy of it and the call returns \<^verbatim>\<open>{created: true}\<close>.
\<close>

theorem ensureBackup_spec:
  "snd (ensureBackup s) INDEX_FILE = s INDEX_FILE
 \<and> snd (ensureBackup (snd (ensureBackup s))) = snd (ensureBackup s)
 \<and> (fst (ensureBackup s) = Inr True \<longrightarrow>
       ensureBackup (snd (ensureBackup s)) = (Inr False, snd (ensureBackup s)))
 \<and> (\<not> isFile (s BACKUP_DIR) \<longrightarrow>
      (s BACKUP_FILE \<noteq> None \<longrightarrow>
         ensureBackup s = (Inr False, s(BACKUP_DIR \<mapsto> Dir))
       \<and> snd (ensureBackup s) BACKUP_FILE = s BACKUP_FILE)
    \<and> (s BACKUP_FILE \<noteq> None \<and> s BACKUP_DIR = Some Dir \<longrightarrow> ensureBackup s = (Inr False, s))
    \<and> (s BACKUP_FILE = None \<and> s INDEX_FILE = None \<longrightarrow>
         ensureBackup s = (Inl (SystemFileNotFound INDEX_FILE), s(BACKUP_DIR \<mapsto> Dir)))
    \<and> (s BACKUP_FILE = None \<and> s INDEX_FILE = Some (File c m) \<longrightarrow>
         ensureBackup s = (Inr True, s(BACKUP_DIR \<mapsto> Dir, BACKUP_FILE \<mapsto> File c m))))"
proof (intro conjI)
  show "snd (ensureBackup s) INDEX_FILE = s INDEX_FILE" by (rule ensureBackup_target)
  obtain r s1 where e: "ensureBackup s = (r, s1)" by (cases "ensureBackup s")
  from ensureBackup_twice[OF e] e
  show "snd (ensureBackup (snd (ensureBackup s))) = snd (ensureBackup s)" by simp
  from ensureBackup_twice[OF e] e
  show "fst (ensureBackup s) = Inr True \<longrightarrow>
       ensureBackup (snd (ensureBackup s)) = (Inr False, snd (ensureBackup s))" by auto
  show "\<not> isFile (s BACKUP_DIR) \<longrightarrow>
      (s BACKUP_FILE \<noteq> None \<longrightarrow>
         ensureBackup s = (Inr False, s(BACKUP_DIR \<mapsto> Dir))
       \<and> snd (ensureBackup s) BACKUP_FILE = s BACKUP_FILE)
    \<and> (s BACKUP_FILE \<noteq> None \<and> s BACKUP_DIR = Some Dir \<longrightarrow> ensureBackup s = (Inr False, s))
    \<and> (s BACKUP_FILE = None \<and> s INDEX_FILE = None \<longrightarrow>
         ensureBackup s = (Inl (SystemFileNotFound INDEX_FILE), s(BACKUP_DIR \<mapsto> Dir)))
    \<and> (s BACKUP_FILE = None \<and> s INDEX_FILE = Some (File c m) \<longrightarrow>
         ensureBackup s = (Inr True, s(BACKUP_DIR \<mapsto> Dir, BACKUP_FILE \<mapsto> File c m)))"
    by (auto simp: ensureBackup_cases paths_distinct fun_upd_idem_iff)
qed

theorem ensureBackup_spec_witness:
  "fst (ensureBackup [INDEX_FILE \<mapsto> File ''original'' 384]) = Inr True
 \<and> snd (ensureBackup [INDEX_FILE \<mapsto> File ''original'' 384]) BACKUP_FILE
       = Some (File ''original'' 384)
 \<and> snd (ensureBackup [INDEX_FILE \<mapsto> File ''original'' 384]) INDEX_FILE
       = Some (File ''original'' 384)
 \<and> ensureBackup (snd (ensureBackup [INDEX_FILE \<mapsto> File ''original'' 384])) =
     (Inr False, snd (ensureBackup [INDEX_FILE \<mapsto> File ''original'' 384]))
 \<and> ensureBackup [BACKUP_DIR \<mapsto> Dir, BACKUP_FILE \<mapsto> File ''original'' 384,
                   INDEX_FILE \<mapsto> File ''patched'' 420] =
     (Inr False, [BACKUP_DIR \<mapsto> Dir, BACKUP_FILE \<mapsto> File ''original'' 384,
                  INDEX_FILE \<mapsto> File ''patched'' 420])
 \<and> ensureBackup Map.empty = (Inl (SystemFileNotFound INDEX_FILE), [BACKUP_DIR \<mapsto> Dir])"
proof -
  let ?s0 = "[INDEX_FILE \<mapsto> File ''original'' 384]"
  let ?s1 = "[BACKUP_DIR \<mapsto> Dir, BACKUP_FILE \<mapsto> File ''original'' 384,
              INDEX_FILE \<mapsto> File ''patched'' 420]"
  have a: "\<not> isFile (?s0 BACKUP_DIR)" "?s0 BACKUP_FILE = None \<and> ?s0 INDEX_FILE = Some (File ''original'' 384)"
    by (simp_all add: paths_distinct)
  have b: "\<not> isFile (?s1 BACKUP_DIR)" "?s1 BACKUP_FILE \<noteq> None \<and> ?s1 BACKUP_DIR = Some Dir"
    by (simp_all add: paths_distinct)
  have c: "\<not> isFile (Map.empty BACKUP_DIR)" "Map.empty BACKUP_FILE = None \<and> Map.empty INDEX_FILE = None"
    by simp_all
  from ensureBackup_spec[of ?s0 "''original''" 384] a
  have 1: "ensureBackup ?s0 = (Inr True, ?s0(BACKUP_DIR \<mapsto> Dir, BACKUP_FILE \<mapsto> File ''original'' 384))"
    by blast
  then have "fst (ensureBackup ?s0) = Inr True" by simp
  with ensureBackup_spec[of ?s0]
  have 2: "ensureBackup (snd (ensureBackup ?s0)) = (Inr False, snd (ensureBackup ?s0))"
    by blast
  from ensureBackup_spec[of ?s1] b have 3: "ensureBackup ?s1 = (Inr False, ?s1)" by blast
  from ensureBackup_spec[of Map.empty] c
  have 4: "ensureBackup Map.empty = (Inl (SystemFileNotFound INDEX_FILE), [BACKUP_DIR \<mapsto> Dir])"
    by blast
  from 1 2 3 4 show ?thesis by (simp add: paths_distinct)
qed

section \<open>Properties of the marker insertion\<close>


lemma scan_head_example:
  "scan ''</head>'' [''X''] (readline_lines ''<head>\<newline></head>\<newline>'') (False, [])
   = (True, ''<head>\<newline>X\<newline></head>\<newline>'')"
  by (simp add: readline_lines_def LF_def CR_def includes_str_def Let_def)

text \<open>
  Claim C7.  On an input file with the content \<^verbatim>\<open><head>\n</head>\n\<close>, marker
  \<^verbatim>\<open></head>\<close> and block \<^verbatim>\<open>["X"]\<close>, injectBlock succeeds and leaves the input
  file with exactly the content \<^verbatim>\<open><head>\nX\n</head>\n\<close>: the empty before-segment is
  not written, the block line comes before the marker line.  The scratch file is any path
  other than the input file that is not a directory.
\<close>

theorem injectBlock_head_example:
  assumes "s inputPath = Some (File ''<head>\<newline></head>\<newline>'' m)"
    and "tempFile \<noteq> inputPath" and "s tempFile \<noteq> Some Dir"
  shows "injectBlock tempFile inputPath ''</head>'' [''X''] s =
     (Inr (), (s(inputPath \<mapsto> File ''<head>\<newline>X\<newline></head>\<newline>''
                                    (scratchMode (s tempFile))))(tempFile := None))"
  using assms(1) assms(2) assms(3) scan_head_example by (rule injectBlock_found)

theorem injectBlock_head_example_witness:
  "injectBlock ''/tmp/fnos-ui-mods-1-a.tmp'' ''/www/index.html'' ''</head>'' [''X'']
     (Map.empty(''/www/index.html'' \<mapsto> File ''<head>\<newline></head>\<newline>'' 420)) =
   (Inr (), (Map.empty(''/www/index.html'' \<mapsto> File ''<head>\<newline>X\<newline></head>\<newline>'' 438))
              (''/tmp/fnos-ui-mods-1-a.tmp'' := None))"
  using injectBlock_head_example[of "Map.empty(''/www/index.html'' \<mapsto> File ''<head>\<newline></head>\<newline>'' 420)"
      "''/www/index.html''" 420 "''/tmp/fnos-ui-mods-1-a.tmp''"]
  by (simp add: scratchMode_def MODE_666_def)

text \<open>
  Claim C3.  When the input is a regular file and none of its lines contains the marker,
  injectBlock fails with the error "insertion point not found" that carries the marker,
  the input file keeps its content and permission bits (no path but the scratch file's
  changes), and the scratch file is gone.
\<close>

theorem injectBlock_marker_absent:
  assumes "s inputPath = Some (File text m)"
    and "tempFile \<noteq> inputPath" and "s tempFile \<noteq> Some Dir"
    and "\<not> (\<exists>l \<in> set (readline_lines text). includes_str l marker)"
  shows "injectBlock tempFile inputPath marker b s =
           (Inl (InsertionPointNotFound marker), s(tempFile := None))
       \<and> snd (injectBlock tempFile inputPath marker b s) inputPath = Some (File text m)
       \<and> snd (injectBlock tempFile inputPath marker b s) tempFile = None"
proof -
  from assms(4) have "scan marker b (readline_lines text) (False, []) =
      (False, [] @ lines_text (readline_lines text))"
    by (intro scan_no_marker) simp
  from injectBlock_not_found[OF assms(1) assms(2) assms(3) this] assms(1) assms(2)
  show ?thesis by simp
qed

theorem injectBlock_marker_absent_witness:
  "injectBlock ''/tmp/s.tmp'' ''/www/index.html'' ''</body>'' [''X'']
     (Map.empty(''/www/index.html'' \<mapsto> File ''<html>\<newline><p>'' 420)) =
     (Inl (InsertionPointNotFound ''</body>''),
      (Map.empty(''/www/index.html'' \<mapsto> File ''<html>\<newline><p>'' 420))(''/tmp/s.tmp'' := None))
   \<and> snd (injectBlock ''/tmp/s.tmp'' ''/www/index.html'' ''</body>'' [''X'']
     (Map.empty(''/www/index.html'' \<mapsto> File ''<html>\<newline><p>'' 420))) ''/www/index.html''
       = Some (File ''<html>\<newline><p>'' 420)
   \<and> snd (injectBlock ''/tmp/s.tmp'' ''/www/index.html'' ''</body>'' [''X'']
     (Map.empty(''/www/index.html'' \<mapsto> File ''<html>\<newline><p>'' 420))) ''/tmp/s.tmp'' = None"
proof -
  have "\<not> (\<exists>l \<in> set (readline_lines ''<html>\<newline><p>''). includes_str l ''</body>'')"
    by (simp add: readline_lines_def LF_def CR_def includes_str_def Let_def)
  from injectBlock_marker_absent[of "Map.empty(''/www/index.html'' \<mapsto> File ''<html>\<newline><p>'' 420)"
      "''/www/index.html''" "''<html>\<newline><p>''" 420 "''/tmp/s.tmp''" "''</body>''" "[''X'']", OF _ _ _ this]
  show ?thesis by simp
qed





section \<open>injectCode with fresh scratch files\<close>

text \<open>
  With a scratch name under which nothing exists, injectBlock on a regular file is the
  function \<open>insertion\<close> on the text of the file: no other path changes, and the scratch
  file is gone afterwards.
\<close>

lemma injectBlock_fresh:
  assumes "s inputPath = Some (File c m)" "s t = None" "t \<noteq> inputPath"
  shows "injectBlock t inputPath marker b s =
     (case insertion marker b c of
        Inl e \<Rightarrow> (Inl e, s)
      | Inr out \<Rightarrow> (Inr (), s(inputPath \<mapsto> File out MODE_666)))"
proof -
  obtain ins out where sc: "scan marker b (readline_lines c) (False, []) = (ins, out)"
    by (cases "scan marker b (readline_lines c) (False, [])")
  from assms(2) have nd: "s t \<noteq> Some Dir" by simp
  from assms(2) have idem: "s(t := None) = s" by (simp add: fun_upd_idem_iff)
  show ?thesis
  proof (cases ins)
    case True
    with sc injectBlock_found[OF assms(1) assms(3) nd, of marker b out]
    have "injectBlock t inputPath marker b s =
            (Inr (), (s(inputPath \<mapsto> File out (scratchMode (s t))))(t := None))" by simp
    moreover have "(s(inputPath \<mapsto> File out MODE_666))(t := None) = s(inputPath \<mapsto> File out MODE_666)"
      using assms(2) assms(3) by (simp add: fun_upd_idem_iff)
    ultimately show ?thesis using sc True assms(2) by (simp add: insertion_def scratchMode_def)
  next
    case False
    with sc injectBlock_not_found[OF assms(1) assms(3) nd, of marker b out] idem
    show ?thesis by (simp add: insertion_def)
  qed
qed

lemma injectIf_fresh:
  assumes "s INDEX_FILE = Some (File c m)" "fresh s t"
  shows "injectIf t final marker block s =
     (if truthy final then
        (case insertion marker (block (the final)) c of
           Inl e \<Rightarrow> (Inl e, s)
         | Inr out \<Rightarrow> (Inr (), s(INDEX_FILE \<mapsto> File out MODE_666)))
      else (Inr (), s))"
  using assms injectBlock_fresh[of s INDEX_FILE c m t marker "block (the final)"]
  by (simp add: injectIf_def fresh_def)

lemma fresh_upd: "fresh s t \<Longrightarrow> fresh (s(INDEX_FILE \<mapsto> n)) t"
  by (simp add: fresh_def)

lemma chmod_file: "s p = Some (File c m) \<Longrightarrow> chmod p m' s = (Inr (), s(p \<mapsto> File c m'))"
  by (simp add: chmod_def)

lemma injectPayload_fresh:
  assumes idx: "s2 INDEX_FILE = Some (File c m)" and f1: "fresh s2 t1" and f2: "fresh s2 t2"
  shows "injectPayload p (t1, t2) s2 =
    (case finalContent (cssPath p) (cssText p) s2 of
       Inl e \<Rightarrow> (Inl e, s2)
     | Inr fc \<Rightarrow>
    (case finalContent (jsPath p) (jsText p) s2 of
       Inl e \<Rightarrow> (Inl e, s2)
     | Inr fj \<Rightarrow>
       if \<not> truthy fc \<and> \<not> truthy fj
       then (Inr \<lparr>injected = False, message = NoContentProvided\<rparr>, s2)
       else
       (case (if truthy fc then insertion ''</head>'' (styleBlock (the fc)) c else Inr c) of
          Inl e \<Rightarrow> (Inl e, s2)
        | Inr c1 \<Rightarrow>
       (case (if truthy fj then insertion ''</body>'' (scriptBlock (the fj)) c1 else Inr c1) of
          Inl e \<Rightarrow> (Inl e, if truthy fc then s2(INDEX_FILE \<mapsto> File c1 MODE_666) else s2)
        | Inr c2 \<Rightarrow>
            (Inr \<lparr>injected = True, message = InjectionSucceeded\<rparr>,
             s2(INDEX_FILE \<mapsto> File c2 MODE_644))))))"
proof (cases "finalContent (cssPath p) (cssText p) s2")
  case (Inl e)
  then show ?thesis by (simp add: injectPayload_def)
next
  case css: (Inr fc)
  show ?thesis
  proof (cases "finalContent (jsPath p) (jsText p) s2")
    case (Inl e)
    with css show ?thesis by (simp add: injectPayload_def)
  next
    case js: (Inr fj)
    show ?thesis
    proof (cases "\<not> truthy fc \<and> \<not> truthy fj")
      case True
      with css js show ?thesis by (simp add: injectPayload_def)
    next
      case some: False
      show ?thesis
      proof (cases "truthy fc")
        case noCss: False
        with some have tj: "truthy fj" by simp
        have step1: "injectIf t1 fc ''</head>'' styleBlock s2 = (Inr (), s2)"
          using noCss by (simp add: injectIf_def)
        show ?thesis
        proof (cases "insertion ''</body>'' (scriptBlock (the fj)) c")
          case (Inl e)
          with css js some noCss tj step1 injectIf_fresh[OF idx f2, of fj "''</body>''" scriptBlock]
          show ?thesis by (simp add: injectPayload_def)
        next
          case (Inr c2)
          with css js some noCss tj step1 injectIf_fresh[OF idx f2, of fj "''</body>''" scriptBlock]
            chmod_file[of "s2(INDEX_FILE \<mapsto> File c2 MODE_666)" INDEX_FILE c2 MODE_666 MODE_644]
          show ?thesis by (simp add: injectPayload_def)
        qed
      next
        case tc: True
        show ?thesis
        proof (cases "insertion ''</head>'' (styleBlock (the fc)) c")
          case (Inl e)
          with css js some tc injectIf_fresh[OF idx f1, of fc "''</head>''" styleBlock]
          show ?thesis by (simp add: injectPayload_def)
        next
          case c1: (Inr c1)
          let ?s3 = "s2(INDEX_FILE \<mapsto> File c1 MODE_666)"
          have step1: "injectIf t1 fc ''</head>'' styleBlock s2 = (Inr (), ?s3)"
            using c1 tc injectIf_fresh[OF idx f1, of fc "''</head>''" styleBlock] by simp
          have idx3: "?s3 INDEX_FILE = Some (File c1 MODE_666)" by simp
          have f3: "fresh ?s3 t2" using f2 by (rule fresh_upd)
          note step2 = injectIf_fresh[OF idx3 f3, of fj "''</body>''" scriptBlock]
          show ?thesis
          proof (cases "truthy fj")
            case False
            with css js some tc c1 step1 step2 chmod_file[of ?s3 INDEX_FILE c1 MODE_666 MODE_644]
            show ?thesis by (simp add: injectPayload_def)
          next
            case tj: True
            show ?thesis
            proof (cases "insertion ''</body>'' (scriptBlock (the fj)) c1")
              case (Inl e)
              with css js some tc tj c1 step1 step2
              show ?thesis by (simp add: injectPayload_def)
            next
              case (Inr c2)
              with css js some tc tj c1 step1 step2
                chmod_file[of "?s3(INDEX_FILE \<mapsto> File c2 MODE_666)" INDEX_FILE c2 MODE_666 MODE_644]
              show ?thesis by (simp add: injectPayload_def)
            qed
          qed
        qed
      qed
    qed
  qed
qed

text \<open>The outcome does not depend on the scratch names, and only the Target File changes.\<close>

lemma injectPayload_indep:
  assumes "s2 INDEX_FILE = Some (File c m)"
    and "fresh s2 t1" "fresh s2 t2" "fresh s2 t1'" "fresh s2 t2'"
  shows "injectPayload p (t1, t2) s2 = injectPayload p (t1', t2') s2"
  by (simp only: injectPayload_fresh[OF assms(1) assms(2) assms(3)]
                 injectPayload_fresh[OF assms(1) assms(4) assms(5)])

lemma injectPayload_frame:
  assumes "s2 INDEX_FILE = Some (File c m)" and "fresh s2 t1" "fresh s2 t2"
  shows "\<exists>c' m'. snd (injectPayload p (t1, t2) s2) = s2(INDEX_FILE \<mapsto> File c' m')"
proof -
  from assms(1) have "s2(INDEX_FILE \<mapsto> File c m) = s2" by (simp add: fun_upd_idem_iff)
  then have triv: "s2 = s2(INDEX_FILE \<mapsto> File c m)" by (rule sym)
  have "snd (injectPayload p (t1, t2) s2) = s2 \<or>
        (\<exists>c' m'. snd (injectPayload p (t1, t2) s2) = s2(INDEX_FILE \<mapsto> File c' m'))"
    unfolding injectPayload_fresh[OF assms]
    by (auto split: sum.splits)
  with triv show ?thesis by metis
qed

lemma ensureBackup_frame:
  "q \<noteq> BACKUP_DIR \<Longrightarrow> q \<noteq> BACKUP_FILE \<Longrightarrow> snd (ensureBackup s) q = s q"
  by (simp add: ensureBackup_cases split: option.splits node.splits)

lemma ensureBackup_fresh: "fresh s t \<Longrightarrow> fresh (snd (ensureBackup s)) t"
  by (simp add: fresh_def ensureBackup_frame)

lemma copyFile_Inl: "copyFile a b s = (Inl e, s') \<Longrightarrow> s' = s"
  by (auto simp: copyFile_def split: option.splits node.splits)

lemma copyFile_Inr:
  "copyFile a b s = (Inr u, s') \<Longrightarrow>
     \<exists>c m. s a = Some (File c m) \<and> s b \<noteq> Some Dir \<and> s' = s(b \<mapsto> File c m)"
  by (auto simp: copyFile_def split: option.splits node.splits)

lemma copyFile_file:
  "s a = Some (File c m) \<Longrightarrow> s b \<noteq> Some Dir \<Longrightarrow> copyFile a b s = (Inr (), s(b \<mapsto> File c m))"
  by (auto simp: copyFile_def split: option.splits node.splits)

lemma ensureBackup_settled:
  assumes "ensureBackup s1 = (Inr False, s1)"
  shows "ensureBackup (s1(INDEX_FILE \<mapsto> n)) = (Inr False, s1(INDEX_FILE \<mapsto> n))"
proof -
  from assms have a: "\<not> isFile (s1 BACKUP_DIR)" "s1 BACKUP_FILE \<noteq> None" "s1(BACKUP_DIR \<mapsto> Dir) = s1"
    by (auto simp: ensureBackup_cases split: if_splits option.splits node.splits)
  from a(3) have "s1 BACKUP_DIR = Some Dir" by (metis fun_upd_same)
  with a show ?thesis
    by (simp add: ensureBackup_cases paths_distinct fun_upd_idem_iff)
qed

lemma injectCode_again:
  assumes "fresh s (fst t)" "fresh s (snd t)" "fresh s (fst t')" "fresh s (snd t')"
  shows "injectCode p t' (snd (injectCode p t s)) = injectCode p t s"
proof -
  obtain r1 s1 where eb: "ensureBackup s = (r1, s1)" by (cases "ensureBackup s")
  note again = ensureBackup_twice[OF eb]
  show ?thesis
  proof (cases r1)
    case (Inl e)
    with eb again show ?thesis by (simp add: injectCode_def)
  next
    case (Inr cr)
    with again have settled: "ensureBackup s1 = (Inr False, s1)" by simp
    obtain r2 s2 where cp: "copyFile BACKUP_FILE INDEX_FILE s1 = (r2, s2)"
      by (cases "copyFile BACKUP_FILE INDEX_FILE s1")
    show ?thesis
    proof (cases r2)
      case (Inl e)
      with cp copyFile_Inl have "s2 = s1" by blast
      with eb Inr cp Inl settled show ?thesis by (simp add: injectCode_def)
    next
      case ok: (Inr u)
      with cp copyFile_Inr obtain b mb where
        bk: "s1 BACKUP_FILE = Some (File b mb)" and nd: "s1 INDEX_FILE \<noteq> Some Dir"
        and s2: "s2 = s1(INDEX_FILE \<mapsto> File b mb)" by blast
      have first: "injectCode p t s = injectPayload p t s2"
        using eb Inr cp ok by (simp add: injectCode_def)
      have idx: "s2 INDEX_FILE = Some (File b mb)" by (simp add: s2)
      have fr: "fresh s2 (fst t)" "fresh s2 (snd t)" "fresh s2 (fst t')" "fresh s2 (snd t')"
        using assms ensureBackup_fresh[of s] eb by (auto simp: s2 intro: fresh_upd)
      from injectPayload_frame[OF idx fr(1) fr(2), of p] obtain c' m' where
        s': "snd (injectPayload p t s2) = s2(INDEX_FILE \<mapsto> File c' m')" by auto
      let ?s' = "s1(INDEX_FILE \<mapsto> File c' m')"
      have s'': "snd (injectCode p t s) = ?s'" using first s' by (simp add: s2)
      have e2: "ensureBackup ?s' = (Inr False, ?s')" using settled by (rule ensureBackup_settled)
      have c2: "copyFile BACKUP_FILE INDEX_FILE ?s' = (Inr (), s2)"
        using copyFile_file[of ?s' BACKUP_FILE b mb INDEX_FILE] bk
        by (simp add: paths_distinct s2)
      have "injectCode p t' ?s' = injectPayload p t' s2"
        using e2 c2 by (simp add: injectCode_def)
      also have "\<dots> = injectPayload p t s2"
        using injectPayload_indep[OF idx fr(3) fr(4) fr(1) fr(2), of p] by simp
      finally show ?thesis using first s'' by simp
    qed
  qed
qed

lemma injectCode_keeps_fresh:
  assumes "fresh s (fst t)" "fresh s (snd t)" "fresh s q"
  shows "fresh (snd (injectCode p t s)) q"
proof -
  obtain r1 s1 where eb: "ensureBackup s = (r1, s1)" by (cases "ensureBackup s")
  have f1: "fresh s1 (fst t)" "fresh s1 (snd t)" "fresh s1 q"
    using assms ensureBackup_fresh[of s] eb by auto
  show ?thesis
  proof (cases r1)
    case (Inl e)
    with eb f1 show ?thesis by (simp add: injectCode_def)
  next
    case (Inr cr)
    obtain r2 s2 where cp: "copyFile BACKUP_FILE INDEX_FILE s1 = (r2, s2)"
      by (cases "copyFile BACKUP_FILE INDEX_FILE s1")
    show ?thesis
    proof (cases r2)
      case (Inl e)
      with cp copyFile_Inl have "s2 = s1" by blast
      with eb Inr cp Inl f1 show ?thesis by (simp add: injectCode_def)
    next
      case ok: (Inr u)
      with cp copyFile_Inr obtain b mb where
        s2: "s2 = s1(INDEX_FILE \<mapsto> File b mb)" by blast
      have idx: "s2 INDEX_FILE = Some (File b mb)" by (simp add: s2)
      have fr: "fresh s2 (fst t)" "fresh s2 (snd t)" "fresh s2 q"
        using f1 by (auto simp: s2 intro: fresh_upd)
      from injectPayload_frame[OF idx fr(1) fr(2), of p] obtain c' m' where
        "snd (injectPayload p t s2) = s2(INDEX_FILE \<mapsto> File c' m')" by auto
      moreover have "injectCode p t s = injectPayload p t s2"
        using eb Inr cp ok by (simp add: injectCode_def)
      ultimately show ?thesis using fr(3) by (simp add: fresh_upd)
    qed
  qed
qed

section \<open>injectCode after the reset of the Target File\<close>

lemma reset_ready:
  assumes "\<not> isFile (s BACKUP_DIR)" "s INDEX_FILE \<noteq> Some Dir" "pristine s = Some (File b mb)"
  shows "fst (ensureBackup s) = Inr (s BACKUP_FILE = None)"
    and "snd (ensureBackup s) = s(BACKUP_DIR \<mapsto> Dir, BACKUP_FILE \<mapsto> File b mb)"
    and "copyFile BACKUP_FILE INDEX_FILE (snd (ensureBackup s)) =
           (Inr (), s(BACKUP_DIR \<mapsto> Dir, BACKUP_FILE \<mapsto> File b mb, INDEX_FILE \<mapsto> File b mb))"
proof -
  show 1: "fst (ensureBackup s) = Inr (s BACKUP_FILE = None)"
    using assms by (auto simp: ensureBackup_cases pristine_def split: option.splits node.splits)
  show 2: "snd (ensureBackup s) = s(BACKUP_DIR \<mapsto> Dir, BACKUP_FILE \<mapsto> File b mb)"
    using assms
    by (auto simp: ensureBackup_cases pristine_def fun_upd_idem_iff paths_distinct
        split: option.splits node.splits)
  show "copyFile BACKUP_FILE INDEX_FILE (snd (ensureBackup s)) =
           (Inr (), s(BACKUP_DIR \<mapsto> Dir, BACKUP_FILE \<mapsto> File b mb, INDEX_FILE \<mapsto> File b mb))"
    unfolding 2 using assms(2)
    by (simp add: copyFile_def paths_distinct split: option.splits node.splits)
qed

lemma resetTarget_ready:
  assumes "\<not> isFile (s BACKUP_DIR)" "s INDEX_FILE \<noteq> Some Dir" "pristine s = Some (File b mb)"
  shows "resetTarget s = s(BACKUP_DIR \<mapsto> Dir, BACKUP_FILE \<mapsto> File b mb, INDEX_FILE \<mapsto> File b mb)"
  by (simp add: resetTarget_def reset_ready(3)[OF assms])

lemma injectCode_ready:
  assumes "\<not> isFile (s BACKUP_DIR)" "s INDEX_FILE \<noteq> Some Dir" "pristine s = Some (File b mb)"
  shows "injectCode p temps s = injectPayload p temps (resetTarget s)"
proof -
  obtain r1 s1 where eb: "ensureBackup s = (r1, s1)" by (cases "ensureBackup s")
  with reset_ready[OF assms] show ?thesis
    by (simp add: injectCode_def resetTarget_def)
qed

lemma injectCode_unready:
  "fst (ensureBackup s) = Inl e \<Longrightarrow> injectCode p temps s = (Inl e, snd (ensureBackup s))"
  by (cases "ensureBackup s") (simp add: injectCode_def)

text \<open>injectCode in terms of the state that its first two steps leave.\<close>

lemma injectCode_steps:
  "injectCode p temps s =
     (case fst (ensureBackup s) of
        Inl e \<Rightarrow> (Inl e, snd (ensureBackup s))
      | Inr created \<Rightarrow>
          (case fst (copyFile BACKUP_FILE INDEX_FILE (snd (ensureBackup s))) of
             Inl e \<Rightarrow> (Inl e, resetTarget s)
           | Inr u \<Rightarrow> injectPayload p temps (resetTarget s)))"
  by (cases "ensureBackup s"; cases "copyFile BACKUP_FILE INDEX_FILE (snd (ensureBackup s))")
     (auto simp: injectCode_def resetTarget_def split: sum.splits)

text \<open>
  Lines 161 and 162 succeed exactly when the backup directory can be made, the Target
  File path is not a directory and the pristine node is a regular file.
\<close>

lemma reset_succeeds_iff:
  "(\<exists>created. fst (ensureBackup s) = Inr created)
     \<and> fst (copyFile BACKUP_FILE INDEX_FILE (snd (ensureBackup s))) = Inr ()
   \<longleftrightarrow> \<not> isFile (s BACKUP_DIR) \<and> s INDEX_FILE \<noteq> Some Dir \<and> isFile (pristine s)"
proof
  assume ok: "(\<exists>created. fst (ensureBackup s) = Inr created)
     \<and> fst (copyFile BACKUP_FILE INDEX_FILE (snd (ensureBackup s))) = Inr ()"
  then have nf: "\<not> isFile (s BACKUP_DIR)"
    by (auto simp: ensureBackup_cases split: if_splits)
  from ok obtain u s2 where "copyFile BACKUP_FILE INDEX_FILE (snd (ensureBackup s)) = (Inr u, s2)"
    by (cases "copyFile BACKUP_FILE INDEX_FILE (snd (ensureBackup s))") auto
  from copyFile_Inr[OF this] obtain c m where
    b: "snd (ensureBackup s) BACKUP_FILE = Some (File c m)"
    and t: "snd (ensureBackup s) INDEX_FILE \<noteq> Some Dir" by blast
  from t have "s INDEX_FILE \<noteq> Some Dir" by (simp add: ensureBackup_target)
  moreover from b nf have "isFile (pristine s)"
    by (auto simp: ensureBackup_cases pristine_def paths_distinct
        split: if_splits option.splits node.splits)
  ultimately show "\<not> isFile (s BACKUP_DIR) \<and> s INDEX_FILE \<noteq> Some Dir \<and> isFile (pristine s)"
    using nf by simp
next
  assume rdy: "\<not> isFile (s BACKUP_DIR) \<and> s INDEX_FILE \<noteq> Some Dir \<and> isFile (pristine s)"
  then obtain b mb where "pristine s = Some (File b mb)"
    by (cases "pristine s" rule: isFile.cases) auto
  with rdy reset_ready[of s b mb]
  show "(\<exists>created. fst (ensureBackup s) = Inr created)
     \<and> fst (copyFile BACKUP_FILE INDEX_FILE (snd (ensureBackup s))) = Inr ()"
    by simp
qed

lemma fresh_resetTarget:
  assumes "\<not> isFile (s BACKUP_DIR)" "s INDEX_FILE \<noteq> Some Dir" "pristine s = Some (File b mb)"
    and "fresh s t"
  shows "fresh (resetTarget s) t"
  using assms(4) by (simp add: resetTarget_ready[OF assms(1) assms(2) assms(3)] fresh_def)

lemma injectCode_inline:
  assumes "\<not> isFile (s BACKUP_DIR)" "s INDEX_FILE \<noteq> Some Dir" "pristine s = Some (File b mb)"
    and "fresh s (fst temps)" "fresh s (snd temps)"
    and "\<not> truthy (cssPath p)" "\<not> truthy (jsPath p)"
  shows "injectCode p temps s =
    (if \<not> truthy (cssText p) \<and> \<not> truthy (jsText p)
     then (Inr \<lparr>injected = False, message = NoContentProvided\<rparr>, resetTarget s)
     else
     (case (if truthy (cssText p)
            then insertion ''</head>'' (styleBlock (the (cssText p))) b else Inr b) of
        Inl e \<Rightarrow> (Inl e, resetTarget s)
      | Inr c1 \<Rightarrow>
     (case (if truthy (jsText p)
            then insertion ''</body>'' (scriptBlock (the (jsText p))) c1 else Inr c1) of
        Inl e \<Rightarrow>
          (Inl e, if truthy (cssText p)
                  then (resetTarget s)(INDEX_FILE \<mapsto> File c1 MODE_666) else resetTarget s)
      | Inr c2 \<Rightarrow>
          (Inr \<lparr>injected = True, message = InjectionSucceeded\<rparr>,
           (resetTarget s)(INDEX_FILE \<mapsto> File c2 MODE_644)))))"
proof -
  note rdy = assms(1) assms(2) assms(3)
  have idx: "resetTarget s INDEX_FILE = Some (File b mb)"
    by (simp add: resetTarget_ready[OF rdy])
  have fr: "fresh (resetTarget s) (fst temps)" "fresh (resetTarget s) (snd temps)"
    using fresh_resetTarget[OF rdy] assms(4) assms(5) by auto
  have fc: "finalContent (cssPath p) (cssText p) (resetTarget s) =
              Inr (if truthy (cssText p) then cssText p else None)"
    using assms(6) by (simp add: finalContent_def)
  have fj: "finalContent (jsPath p) (jsText p) (resetTarget s) =
              Inr (if truthy (jsText p) then jsText p else None)"
    using assms(7) by (simp add: finalContent_def)
  have "injectCode p temps s = injectPayload p (fst temps, snd temps) (resetTarget s)"
    by (simp add: injectCode_ready[OF rdy])
  also note injectPayload_fresh[OF idx fr, of p]
  finally show ?thesis
    unfolding fc fj
    by (cases "truthy (cssText p)"; cases "truthy (jsText p)")
       (simp_all cong: sum.case_cong if_cong)
qed

lemma finalContent_bad_reference:
  "truthy pathRef \<Longrightarrow> \<not> isFile (s (the pathRef)) \<Longrightarrow> \<exists>e. finalContent pathRef inlineText s = Inl e"
  by (cases "s (the pathRef)") (auto simp: finalContent_def readTextFromPath_def split: node.splits)

text \<open>Lines 183 and 192 only look at a final content that is truthy.\<close>

lemma injectIf_falsy: "\<not> truthy final \<Longrightarrow> injectIf t final marker block s = (Inr (), s)"
  by (simp add: injectIf_def)

lemma injectIf_Some_Nil: "injectIf t (Some []) marker block s = injectIf t None marker block s"
  by (simp add: injectIf_def)

lemma finalContent_reference:
  "truthy pathRef \<Longrightarrow> s (the pathRef) = Some (File c m) \<Longrightarrow>
     finalContent pathRef inlineText s = Inr (Some c)"
  by (simp add: finalContent_def readTextFromPath_def)

lemma finalContent_inline:
  "finalContent None (Some c) s = (if c = [] then Inr None else Inr (Some c))"
  by (simp add: finalContent_def)

lemma finalContent_omitted:
  "\<not> truthy pathRef \<Longrightarrow> \<not> truthy inlineText \<Longrightarrow> finalContent pathRef inlineText s = Inr None"
  by (simp add: finalContent_def)

lemma injectPayload_css_ignores_inline:
  "truthy (cssPath p) \<Longrightarrow> injectPayload (p\<lparr>cssText := t\<rparr>) temps s = injectPayload p temps s"
  by (simp add: injectPayload_def finalContent_def cong: sum.case_cong if_cong)

lemma injectPayload_js_ignores_inline:
  "truthy (jsPath p) \<Longrightarrow> injectPayload (p\<lparr>jsText := t\<rparr>) temps s = injectPayload p temps s"
  by (simp add: injectPayload_def finalContent_def cong: sum.case_cong if_cong)

lemma injectPayload_css_reference:
  assumes "truthy (cssPath p)" "s (the (cssPath p)) = Some (File c m)"
  shows "injectPayload p temps s = injectPayload (p\<lparr>cssPath := None, cssText := Some c\<rparr>) temps s"
  using finalContent_reference[of "cssPath p" s c m "cssText p"] assms
  by (cases "c = []")
     (simp_all add: injectPayload_def finalContent_inline injectIf_Some_Nil injectIf_falsy
        cong: sum.case_cong if_cong)

lemma injectPayload_js_reference:
  assumes "truthy (jsPath p)" "s (the (jsPath p)) = Some (File c m)"
  shows "injectPayload p temps s = injectPayload (p\<lparr>jsPath := None, jsText := Some c\<rparr>) temps s"
  using finalContent_reference[of "jsPath p" s c m "jsText p"] assms
  by (cases "c = []")
     (simp_all add: injectPayload_def finalContent_inline injectIf_Some_Nil injectIf_falsy
        cong: sum.case_cong if_cong)

lemma injectPayload_css_omitted:
  assumes "\<not> truthy (cssPath p)" "\<not> truthy (cssText p)"
  shows "injectPayload p temps s = injectPayload (p\<lparr>cssPath := None, cssText := None\<rparr>) temps s"
  using finalContent_omitted[OF assms, of s]
  by (simp add: injectPayload_def finalContent_omitted cong: sum.case_cong if_cong)

lemma injectPayload_js_omitted:
  assumes "\<not> truthy (jsPath p)" "\<not> truthy (jsText p)"
  shows "injectPayload p temps s = injectPayload (p\<lparr>jsPath := None, jsText := None\<rparr>) temps s"
  using finalContent_omitted[OF assms, of s]
  by (simp add: injectPayload_def finalContent_omitted cong: sum.case_cong if_cong)

lemma injectPayload_bad_css:
  "truthy (cssPath p) \<Longrightarrow> \<not> isFile (s (the (cssPath p))) \<Longrightarrow> \<exists>e. fst (injectPayload p temps s) = Inl e"
  using finalContent_bad_reference[of "cssPath p" s "cssText p"]
  by (auto simp: injectPayload_def)

lemma injectPayload_bad_js:
  "truthy (jsPath p) \<Longrightarrow> \<not> isFile (s (the (jsPath p))) \<Longrightarrow> \<exists>e. fst (injectPayload p temps s) = Inl e"
  using finalContent_bad_reference[of "jsPath p" s "jsText p"]
  by (cases "finalContent (cssPath p) (cssText p) s") (auto simp: injectPayload_def)

text \<open>Two payloads that injectPayload treats alike are treated alike by injectCode.\<close>

lemma injectCode_cong:
  "injectPayload p temps (resetTarget s) = injectPayload p' temps (resetTarget s)
     \<Longrightarrow> injectCode p temps s = injectCode p' temps s"
  by (simp add: injectCode_steps split: sum.splits)

lemma injectCode_error:
  "\<exists>e. fst (injectPayload p temps (resetTarget s)) = Inl e \<Longrightarrow> \<exists>e. fst (injectCode p temps s) = Inl e"
  by (auto simp: injectCode_steps split: sum.splits)

section \<open>Example values\<close>

lemma example_insertion_head:
  "insertion ''</head>'' [''<style>'', ''/* Injected CSS */'', ''a{}'', ''</style>'']
     ''<head>\<newline></head>\<newline><body>\<newline></body>\<newline>''
     = Inr ''<head>\<newline><style>\<newline>/* Injected CSS */\<newline>a{}\<newline></style>\<newline></head>\<newline><body>\<newline></body>\<newline>''"
  by (simp add: insertion_def readline_lines_def LF_def CR_def includes_str_def Let_def)

lemma example_insertion_body:
  "insertion ''</body>'' [''<script>'', ''// Injected JS'', ''f()'', ''</script>'']
     ''<head>\<newline></head>\<newline><body>\<newline></body>\<newline>''
     = Inr ''<head>\<newline></head>\<newline><body>\<newline><script>\<newline>// Injected JS\<newline>f()\<newline></script>\<newline></body>\<newline>''"
  by (simp add: insertion_def readline_lines_def LF_def CR_def includes_str_def Let_def)

lemma example_insertion_both:
  "insertion ''</body>'' [''<script>'', ''// Injected JS'', ''f()'', ''</script>'']
     ''<head>\<newline><style>\<newline>/* Injected CSS */\<newline>a{}\<newline></style>\<newline></head>\<newline><body>\<newline></body>\<newline>''
     = Inr ''<head>\<newline><style>\<newline>/* Injected CSS */\<newline>a{}\<newline></style>\<newline></head>\<newline><body>\<newline><script>\<newline>// Injected JS\<newline>f()\<newline></script>\<newline></body>\<newline>''"
  by (simp add: insertion_def readline_lines_def LF_def CR_def includes_str_def Let_def)

lemma example_names:
  "''/tmp/1.tmp'' \<noteq> INDEX_FILE" "''/tmp/1.tmp'' \<noteq> BACKUP_FILE" "''/tmp/1.tmp'' \<noteq> BACKUP_DIR"
  "''/tmp/2.tmp'' \<noteq> INDEX_FILE" "''/tmp/2.tmp'' \<noteq> BACKUP_FILE" "''/tmp/2.tmp'' \<noteq> BACKUP_DIR"
  "''/tmp/3.tmp'' \<noteq> INDEX_FILE" "''/tmp/3.tmp'' \<noteq> BACKUP_FILE" "''/tmp/3.tmp'' \<noteq> BACKUP_DIR"
  "''/tmp/4.tmp'' \<noteq> INDEX_FILE" "''/tmp/4.tmp'' \<noteq> BACKUP_FILE" "''/tmp/4.tmp'' \<noteq> BACKUP_DIR"
  "''/m.css'' \<noteq> INDEX_FILE" "''/m.css'' \<noteq> BACKUP_FILE" "''/m.css'' \<noteq> BACKUP_DIR"
  "''/m.js'' \<noteq> INDEX_FILE" "''/m.js'' \<noteq> BACKUP_FILE" "''/m.js'' \<noteq> BACKUP_DIR"
  by (simp_all add: INDEX_FILE_def BACKUP_FILE_def BACKUP_DIR_def TARGET_DIR_def)

section \<open>Properties of injectCode\<close>

text \<open>
  Claim C1.  Calling injectCode any number of times with the same payload, each call with
  scratch names that are fresh in the initial state, leaves the state of a single call:
  the Target File, and every other path, is as one call leaves it.  This holds whatever
  the initial state is and whether or not the calls succeed.
\<close>

theorem injectCode_idempotent:
  assumes "\<forall>t \<in> set (t0 # ts). fresh s (fst t) \<and> fresh s (snd t)"
  shows "injectCode_repeat p (t0 # ts) s = snd (injectCode p t0 s)"
  using assms
proof (induction ts arbitrary: s t0)
  case Nil
  then show ?case by simp
next
  case (Cons t1 ts)
  let ?s1 = "snd (injectCode p t0 s)"
  from Cons.prems have f0: "fresh s (fst t0)" "fresh s (snd t0)"
    and f1: "fresh s (fst t1)" "fresh s (snd t1)" by auto
  have "\<forall>t \<in> set (t1 # ts). fresh ?s1 (fst t) \<and> fresh ?s1 (snd t)"
    using Cons.prems injectCode_keeps_fresh[OF f0] by auto
  from Cons.IH[OF this]
  have "injectCode_repeat p (t1 # ts) ?s1 = snd (injectCode p t1 ?s1)" .
  also have "\<dots> = ?s1" using injectCode_again[OF f0 f1, of p] by simp
  finally show ?case by simp
qed

theorem injectCode_idempotent_witness:
  "injectCode_repeat \<lparr>cssText = Some ''a{}'', jsText = None, cssPath = None, jsPath = None\<rparr>
      [(''/tmp/1.tmp'', ''/tmp/2.tmp''), (''/tmp/3.tmp'', ''/tmp/4.tmp''), (''/tmp/1.tmp'', ''/tmp/2.tmp'')]
      [INDEX_FILE \<mapsto> File ''<head>\<newline></head>\<newline><body>\<newline></body>\<newline>'' 420]
   = snd (injectCode \<lparr>cssText = Some ''a{}'', jsText = None, cssPath = None, jsPath = None\<rparr>
      (''/tmp/1.tmp'', ''/tmp/2.tmp'')
      [INDEX_FILE \<mapsto> File ''<head>\<newline></head>\<newline><body>\<newline></body>\<newline>'' 420])
 \<and> snd (injectCode \<lparr>cssText = Some ''a{}'', jsText = None, cssPath = None, jsPath = None\<rparr>
      (''/tmp/1.tmp'', ''/tmp/2.tmp'')
      [INDEX_FILE \<mapsto> File ''<head>\<newline></head>\<newline><body>\<newline></body>\<newline>'' 420]) INDEX_FILE
   = Some (File ''<head>\<newline><style>\<newline>/* Injected CSS */\<newline>a{}\<newline></style>\<newline></head>\<newline><body>\<newline></body>\<newline>'' 420)"
proof -
  let ?s = "[INDEX_FILE \<mapsto> File ''<head>\<newline></head>\<newline><body>\<newline></body>\<newline>'' 420]"
  let ?p = "\<lparr>cssText = Some ''a{}'', jsText = None, cssPath = None, jsPath = None\<rparr>"
  have fr: "fresh ?s ''/tmp/1.tmp''" "fresh ?s ''/tmp/2.tmp''" "fresh ?s ''/tmp/3.tmp''" "fresh ?s ''/tmp/4.tmp''"
    by (simp_all add: fresh_def example_names)
  then have all: "\<forall>t \<in> set [(''/tmp/1.tmp'', ''/tmp/2.tmp''), (''/tmp/3.tmp'', ''/tmp/4.tmp''),
                        (''/tmp/1.tmp'', ''/tmp/2.tmp'')]. fresh ?s (fst t) \<and> fresh ?s (snd t)"
    by simp
  have rdy: "\<not> isFile (?s BACKUP_DIR)" "?s INDEX_FILE \<noteq> Some Dir"
      "pristine ?s = Some (File ''<head>\<newline></head>\<newline><body>\<newline></body>\<newline>'' 420)"
    by (simp_all add: paths_distinct pristine_def)
  have ev: "snd (injectCode ?p (''/tmp/1.tmp'', ''/tmp/2.tmp'') ?s) INDEX_FILE
   = Some (File ''<head>\<newline><style>\<newline>/* Injected CSS */\<newline>a{}\<newline></style>\<newline></head>\<newline><body>\<newline></body>\<newline>'' 420)"
    using injectCode_inline[OF rdy, of "(''/tmp/1.tmp'', ''/tmp/2.tmp'')" ?p] fr
    by (simp add: example_insertion_head styleBlock_def MODE_644_def)
  from injectCode_idempotent[OF all, of ?p] ev show ?thesis by simp
qed

text \<open>
  Claim C2, as stated, fails: with a Backup File \<^verbatim>\<open>A\<close> and a Target File \<^verbatim>\<open>B\<close>, a call
  without any content returns \<^verbatim>\<open>{injected: false}\<close> after line 162 has copied the
  Backup File over the Target File, whose content is \<^verbatim>\<open>A\<close> afterwards.  Without a
  Backup File, the same call makes one from the Target File; without either file, it
  fails in ensureBackup.
\<close>

theorem injectCode_empty_payload_counterexample:
  "fst (injectCode \<lparr>cssText = None, jsText = None, cssPath = None, jsPath = None\<rparr>
          (''/tmp/a.tmp'', ''/tmp/b.tmp'')
          [BACKUP_DIR \<mapsto> Dir, BACKUP_FILE \<mapsto> File ''A'' 420, INDEX_FILE \<mapsto> File ''B'' 420])
     = Inr \<lparr>injected = False, message = NoContentProvided\<rparr>
 \<and> [BACKUP_DIR \<mapsto> Dir, BACKUP_FILE \<mapsto> File ''A'' 420, INDEX_FILE \<mapsto> File ''B'' 420] INDEX_FILE
     = Some (File ''B'' 420)
 \<and> snd (injectCode \<lparr>cssText = None, jsText = None, cssPath = None, jsPath = None\<rparr>
          (''/tmp/a.tmp'', ''/tmp/b.tmp'')
          [BACKUP_DIR \<mapsto> Dir, BACKUP_FILE \<mapsto> File ''A'' 420, INDEX_FILE \<mapsto> File ''B'' 420])
       INDEX_FILE = Some (File ''A'' 420)
 \<and> [INDEX_FILE \<mapsto> File ''B'' 420] BACKUP_FILE = None
 \<and> snd (injectCode \<lparr>cssText = None, jsText = None, cssPath = None, jsPath = None\<rparr>
          (''/tmp/a.tmp'', ''/tmp/b.tmp'') [INDEX_FILE \<mapsto> File ''B'' 420])
       BACKUP_FILE = Some (File ''B'' 420)
 \<and> fst (injectCode \<lparr>cssText = None, jsText = None, cssPath = None, jsPath = None\<rparr>
          (''/tmp/a.tmp'', ''/tmp/b.tmp'') Map.empty)
     = Inl (SystemFileNotFound INDEX_FILE)"
  by (simp add: injectCode_def ensureBackup_cases copyFile_def paths_distinct injectPayload_def
      finalContent_def)

text \<open>
  Claim C2, amended.  When the first two steps of injectCode succeed (the backup directory
  can be made, the Target File path is not a directory, and the pristine node is a
  regular file with text \<open>b\<close>) and both final contents are omitted, the call returns
  \<^verbatim>\<open>{injected: false}\<close> with the message that no content was provided, and does not
  fail.  Afterwards the Target File and the Backup File both hold \<open>b\<close>: a Backup File
  that existed is unchanged and the Target File is reset to it; without a Backup File,
  one is made from the Target File, which is unchanged.
\<close>

theorem injectCode_nothing_to_inject:
  assumes "\<not> isFile (s BACKUP_DIR)" "s INDEX_FILE \<noteq> Some Dir" "pristine s = Some (File b mb)"
    and "finalContent (cssPath p) (cssText p) (resetTarget s) = Inr finalCss" "\<not> truthy finalCss"
    and "finalContent (jsPath p) (jsText p) (resetTarget s) = Inr finalJs" "\<not> truthy finalJs"
  shows "injectCode p temps s =
           (Inr \<lparr>injected = False, message = NoContentProvided\<rparr>,
            s(BACKUP_DIR \<mapsto> Dir, BACKUP_FILE \<mapsto> File b mb, INDEX_FILE \<mapsto> File b mb))
       \<and> snd (injectCode p temps s) INDEX_FILE = Some (File b mb)
       \<and> snd (injectCode p temps s) BACKUP_FILE = Some (File b mb)
       \<and> (s BACKUP_FILE \<noteq> None \<longrightarrow> snd (injectCode p temps s) BACKUP_FILE = s BACKUP_FILE)
       \<and> (s BACKUP_FILE = None \<longrightarrow> snd (injectCode p temps s) INDEX_FILE = s INDEX_FILE)"
proof -
  note rt = resetTarget_ready[OF assms(1) assms(2) assms(3)]
  have "injectCode p temps s =
           (Inr \<lparr>injected = False, message = NoContentProvided\<rparr>, resetTarget s)"
    using assms(4-7) by (simp add: injectCode_ready[OF assms(1) assms(2) assms(3)] injectPayload_def)
  then show ?thesis using assms(3)
    by (auto simp: rt paths_distinct pristine_def split: option.splits)
qed

theorem injectCode_nothing_to_inject_witness:
  "injectCode \<lparr>cssText = Some [], jsText = None, cssPath = None, jsPath = None\<rparr>
          (''/tmp/a.tmp'', ''/tmp/b.tmp'')
          [BACKUP_DIR \<mapsto> Dir, BACKUP_FILE \<mapsto> File ''A'' 420, INDEX_FILE \<mapsto> File ''B'' 420]
     = (Inr \<lparr>injected = False, message = NoContentProvided\<rparr>,
        [BACKUP_DIR \<mapsto> Dir, BACKUP_FILE \<mapsto> File ''A'' 420, INDEX_FILE \<mapsto> File ''A'' 420])
 \<and> snd (injectCode \<lparr>cssText = Some [], jsText = None, cssPath = None, jsPath = None\<rparr>
          (''/tmp/a.tmp'', ''/tmp/b.tmp'')
          [BACKUP_DIR \<mapsto> Dir, BACKUP_FILE \<mapsto> File ''A'' 420, INDEX_FILE \<mapsto> File ''B'' 420])
       BACKUP_FILE = Some (File ''A'' 420)
 \<and> snd (injectCode \<lparr>cssText = None, jsText = None, cssPath = None, jsPath = None\<rparr>
          (''/tmp/a.tmp'', ''/tmp/b.tmp'') [INDEX_FILE \<mapsto> File ''B'' 420])
       INDEX_FILE = Some (File ''B'' 420)
 \<and> snd (injectCode \<lparr>cssText = None, jsText = None, cssPath = None, jsPath = None\<rparr>
          (''/tmp/a.tmp'', ''/tmp/b.tmp'') [INDEX_FILE \<mapsto> File ''B'' 420])
       BACKUP_FILE = Some (File ''B'' 420)"
proof -
  let ?s = "[BACKUP_DIR \<mapsto> Dir, BACKUP_FILE \<mapsto> File ''A'' 420, INDEX_FILE \<mapsto> File ''B'' 420]"
  let ?p = "\<lparr>cssText = Some [], jsText = None, cssPath = None, jsPath = None\<rparr>"
  let ?s' = "[INDEX_FILE \<mapsto> File ''B'' 420]"
  let ?p' = "\<lparr>cssText = None, jsText = None, cssPath = None, jsPath = None\<rparr>"
  have a: "\<not> isFile (?s BACKUP_DIR)" "?s INDEX_FILE \<noteq> Some Dir" "pristine ?s = Some (File ''A'' 420)"
    by (simp_all add: paths_distinct pristine_def)
  have b: "finalContent (cssPath ?p) (cssText ?p) (resetTarget ?s) = Inr None" "\<not> truthy None"
       "finalContent (jsPath ?p) (jsText ?p) (resetTarget ?s) = Inr None"
    by (simp_all add: finalContent_def)
  have a': "\<not> isFile (?s' BACKUP_DIR)" "?s' INDEX_FILE \<noteq> Some Dir" "pristine ?s' = Some (File ''B'' 420)"
    by (simp_all add: paths_distinct pristine_def)
  have b': "finalContent (cssPath ?p') (cssText ?p') (resetTarget ?s') = Inr None"
       "finalContent (jsPath ?p') (jsText ?p') (resetTarget ?s') = Inr None"
    by (simp_all add: finalContent_def)
  from injectCode_nothing_to_inject[OF a b(1) b(2) b(3) b(2), of "(''/tmp/a.tmp'', ''/tmp/b.tmp'')"]
       injectCode_nothing_to_inject[OF a' b'(1) b(2) b'(2) b(2), of "(''/tmp/a.tmp'', ''/tmp/b.tmp'')"]
  show ?thesis by (simp add: paths_distinct)
qed

text \<open>
  Claim C9.  When the first two steps of injectCode succeed and a supplied
  \<^verbatim>\<open>cssPath\<close> or \<^verbatim>\<open>jsPath\<close> does not lead to a regular file (the Target File and the
  Backup File themselves are regular files when the references are read), the call fails
  after the reset: the state it leaves has the Target File equal to the pristine text
  \<open>b\<close>, whatever the Target File held before, and the Backup File holds \<open>b\<close> too.
\<close>

theorem injectCode_bad_reference:
  assumes "\<not> isFile (s BACKUP_DIR)" "s INDEX_FILE \<noteq> Some Dir" "pristine s = Some (File b mb)"
    and "(truthy (cssPath p) \<and> the (cssPath p) \<noteq> INDEX_FILE \<and> the (cssPath p) \<noteq> BACKUP_FILE
            \<and> \<not> isFile (s (the (cssPath p))))
       \<or> (truthy (jsPath p) \<and> the (jsPath p) \<noteq> INDEX_FILE \<and> the (jsPath p) \<noteq> BACKUP_FILE
            \<and> \<not> isFile (s (the (jsPath p))))"
  shows "(\<exists>e. injectCode p temps s =
            (Inl e, s(BACKUP_DIR \<mapsto> Dir, BACKUP_FILE \<mapsto> File b mb, INDEX_FILE \<mapsto> File b mb)))
       \<and> snd (injectCode p temps s) INDEX_FILE = Some (File b mb)
       \<and> snd (injectCode p temps s) BACKUP_FILE = Some (File b mb)"
proof -
  note rt = resetTarget_ready[OF assms(1) assms(2) assms(3)]
  have keep: "\<not> isFile (resetTarget s q)"
    if "q \<noteq> INDEX_FILE" "q \<noteq> BACKUP_FILE" "\<not> isFile (s q)" for q
    using that by (simp add: rt)
  have "\<exists>e. injectPayload p temps (resetTarget s) = (Inl e, resetTarget s)"
  proof (cases "finalContent (cssPath p) (cssText p) (resetTarget s)")
    case (Inl e)
    then show ?thesis by (simp add: injectPayload_def)
  next
    case css: (Inr finalCss)
    with finalContent_bad_reference[of "cssPath p" "resetTarget s" "cssText p"] keep assms(4)
    have js: "truthy (jsPath p)" "\<not> isFile (resetTarget s (the (jsPath p)))" by auto
    from finalContent_bad_reference[of "jsPath p" "resetTarget s" "jsText p"] js css
    show ?thesis by (auto simp: injectPayload_def)
  qed
  then obtain e where "injectCode p temps s = (Inl e, resetTarget s)"
    by (auto simp: injectCode_ready[OF assms(1) assms(2) assms(3)])
  then show ?thesis by (auto simp: rt paths_distinct)
qed

theorem injectCode_bad_reference_witness:
  "injectCode \<lparr>cssText = Some ''a{}'', jsText = None, cssPath = Some ''/missing.css'', jsPath = None\<rparr>
          (''/tmp/a.tmp'', ''/tmp/b.tmp'')
          [BACKUP_DIR \<mapsto> Dir, BACKUP_FILE \<mapsto> File ''original'' 420,
           INDEX_FILE \<mapsto> File ''patched'' 420]
     = (Inl (ENOENT ''/missing.css''),
        [BACKUP_DIR \<mapsto> Dir, BACKUP_FILE \<mapsto> File ''original'' 420,
         INDEX_FILE \<mapsto> File ''original'' 420])
 \<and> (\<exists>e. injectCode \<lparr>cssText = None, jsText = None, cssPath = None, jsPath = Some BACKUP_DIR\<rparr>
          (''/tmp/a.tmp'', ''/tmp/b.tmp'')
          [BACKUP_DIR \<mapsto> Dir, BACKUP_FILE \<mapsto> File ''original'' 420,
           INDEX_FILE \<mapsto> File ''patched'' 420]
     = (Inl e,
        [BACKUP_DIR \<mapsto> Dir, BACKUP_FILE \<mapsto> File ''original'' 420,
         INDEX_FILE \<mapsto> File ''original'' 420]))"
proof -
  let ?s = "[BACKUP_DIR \<mapsto> Dir, BACKUP_FILE \<mapsto> File ''original'' 420,
             INDEX_FILE \<mapsto> File ''patched'' 420]"
  let ?p = "\<lparr>cssText = Some ''a{}'', jsText = None, cssPath = Some ''/missing.css'', jsPath = None\<rparr>"
  let ?q = "\<lparr>cssText = None, jsText = None, cssPath = None, jsPath = Some BACKUP_DIR\<rparr>"
  have a: "\<not> isFile (?s BACKUP_DIR)" "?s INDEX_FILE \<noteq> Some Dir"
      "pristine ?s = Some (File ''original'' 420)"
    by (simp_all add: paths_distinct pristine_def)
  have names: "''/missing.css'' \<noteq> INDEX_FILE" "''/missing.css'' \<noteq> BACKUP_FILE"
      "''/missing.css'' \<noteq> BACKUP_DIR"
    by (simp_all add: INDEX_FILE_def BACKUP_FILE_def BACKUP_DIR_def TARGET_DIR_def)
  have bp: "(truthy (cssPath ?p) \<and> the (cssPath ?p) \<noteq> INDEX_FILE \<and> the (cssPath ?p) \<noteq> BACKUP_FILE
            \<and> \<not> isFile (?s (the (cssPath ?p))))
       \<or> (truthy (jsPath ?p) \<and> the (jsPath ?p) \<noteq> INDEX_FILE \<and> the (jsPath ?p) \<noteq> BACKUP_FILE
            \<and> \<not> isFile (?s (the (jsPath ?p))))"
    using names by simp
  have bq: "(truthy (cssPath ?q) \<and> the (cssPath ?q) \<noteq> INDEX_FILE \<and> the (cssPath ?q) \<noteq> BACKUP_FILE
            \<and> \<not> isFile (?s (the (cssPath ?q))))
       \<or> (truthy (jsPath ?q) \<and> the (jsPath ?q) \<noteq> INDEX_FILE \<and> the (jsPath ?q) \<noteq> BACKUP_FILE
            \<and> \<not> isFile (?s (the (jsPath ?q))))"
  proof -
    have "BACKUP_DIR \<noteq> []" by (simp add: BACKUP_DIR_def)
    then show ?thesis by (simp add: paths_distinct)
  qed
  have ev: "fst (injectCode ?p (''/tmp/a.tmp'', ''/tmp/b.tmp'') ?s) = Inl (ENOENT ''/missing.css'')"
    using names
    by (simp add: injectCode_def ensureBackup_cases copyFile_def paths_distinct injectPayload_def
      finalContent_def readTextFromPath_def)
  have upd: "?s(BACKUP_DIR \<mapsto> Dir, BACKUP_FILE \<mapsto> File ''original'' 420,
                INDEX_FILE \<mapsto> File ''original'' 420) =
             [BACKUP_DIR \<mapsto> Dir, BACKUP_FILE \<mapsto> File ''original'' 420,
              INDEX_FILE \<mapsto> File ''original'' 420]"
    by (rule ext) (simp add: paths_distinct)
  from injectCode_bad_reference[OF a bp, of "(''/tmp/a.tmp'', ''/tmp/b.tmp'')"]
  obtain e1 where r1: "injectCode ?p (''/tmp/a.tmp'', ''/tmp/b.tmp'') ?s =
      (Inl e1, ?s(BACKUP_DIR \<mapsto> Dir, BACKUP_FILE \<mapsto> File ''original'' 420,
                INDEX_FILE \<mapsto> File ''original'' 420))" by blast
  with ev have e1: "e1 = ENOENT ''/missing.css''" by simp
  from injectCode_bad_reference[OF a bq, of "(''/tmp/a.tmp'', ''/tmp/b.tmp'')"]
  obtain e2 where r2: "injectCode ?q (''/tmp/a.tmp'', ''/tmp/b.tmp'') ?s =
      (Inl e2, ?s(BACKUP_DIR \<mapsto> Dir, BACKUP_FILE \<mapsto> File ''original'' 420,
                INDEX_FILE \<mapsto> File ''original'' 420))" by blast
  from r1 r2 show ?thesis unfolding upd e1 by blast
qed

text \<open>
  Claim C8.  For the style and the script channel alike, in any state:
  with a file reference, the inline text is ignored (the call is the same call whatever
  the inline text is); when the reference leads to a regular file with text \<open>c\<close> at the
  time it is read (in the state \<open>resetTarget s\<close>), the call is the call with the inline
  text \<open>c\<close> and no reference; when it does not lead to a regular file, the call fails;
  without reference and without non-empty inline text, the call is the call with both
  fields \<^verbatim>\<open>null\<close>.  What a call without file references (each path \<^verbatim>\<open>null\<close> or the
  empty string) does is the last part: when the first two steps succeed and the scratch
  names are fresh, a non-empty inline style text is inserted at \<^verbatim>\<open></head>\<close> of the
  pristine text \<open>b\<close>, as the third of the four lines of the style block, and an omitted
  one is not; then a non-empty inline script text is inserted at \<^verbatim>\<open></body>\<close>, as the
  third of the four lines of the script block, and an omitted one is not; with both
  omitted nothing is injected.
\<close>

theorem injectCode_channel_resolution:
  "(truthy (cssPath p) \<longrightarrow> injectCode (p\<lparr>cssText := t\<rparr>) temps s = injectCode p temps s)
 \<and> (truthy (jsPath p) \<longrightarrow> injectCode (p\<lparr>jsText := t\<rparr>) temps s = injectCode p temps s)
 \<and> (truthy (cssPath p) \<and> resetTarget s (the (cssPath p)) = Some (File c m) \<longrightarrow>
       injectCode p temps s = injectCode (p\<lparr>cssPath := None, cssText := Some c\<rparr>) temps s)
 \<and> (truthy (jsPath p) \<and> resetTarget s (the (jsPath p)) = Some (File c m) \<longrightarrow>
       injectCode p temps s = injectCode (p\<lparr>jsPath := None, jsText := Some c\<rparr>) temps s)
 \<and> (truthy (cssPath p) \<and> \<not> isFile (resetTarget s (the (cssPath p))) \<longrightarrow>
       (\<exists>e. fst (injectCode p temps s) = Inl e))
 \<and> (truthy (jsPath p) \<and> \<not> isFile (resetTarget s (the (jsPath p))) \<longrightarrow>
       (\<exists>e. fst (injectCode p temps s) = Inl e))
 \<and> (\<not> truthy (cssPath p) \<and> \<not> truthy (cssText p) \<longrightarrow>
       injectCode p temps s = injectCode (p\<lparr>cssPath := None, cssText := None\<rparr>) temps s)
 \<and> (\<not> truthy (jsPath p) \<and> \<not> truthy (jsText p) \<longrightarrow>
       injectCode p temps s = injectCode (p\<lparr>jsPath := None, jsText := None\<rparr>) temps s)
 \<and> (\<not> isFile (s BACKUP_DIR) \<and> s INDEX_FILE \<noteq> Some Dir \<and> pristine s = Some (File b mb)
      \<and> fresh s (fst temps) \<and> fresh s (snd temps)
      \<and> \<not> truthy (cssPath p) \<and> \<not> truthy (jsPath p) \<longrightarrow>
       injectCode p temps s =
        (if \<not> truthy (cssText p) \<and> \<not> truthy (jsText p)
         then (Inr \<lparr>injected = False, message = NoContentProvided\<rparr>, resetTarget s)
         else
         (case (if truthy (cssText p)
                then insertion ''</head>''
                       [''<style>'', ''/* Injected CSS */'', the (cssText p), ''</style>''] b
                else Inr b) of
            Inl e \<Rightarrow> (Inl e, resetTarget s)
          | Inr c1 \<Rightarrow>
         (case (if truthy (jsText p)
                then insertion ''</body>''
                       [''<script>'', ''// Injected JS'', the (jsText p), ''</script>''] c1
                else Inr c1) of
            Inl e \<Rightarrow>
              (Inl e, if truthy (cssText p)
                      then (resetTarget s)(INDEX_FILE \<mapsto> File c1 MODE_666) else resetTarget s)
          | Inr c2 \<Rightarrow>
              (Inr \<lparr>injected = True, message = InjectionSucceeded\<rparr>,
               (resetTarget s)(INDEX_FILE \<mapsto> File c2 MODE_644))))))"
proof (intro conjI impI)
  assume "truthy (cssPath p)"
  then show "injectCode (p\<lparr>cssText := t\<rparr>) temps s = injectCode p temps s"
    by (intro injectCode_cong injectPayload_css_ignores_inline)
next
  assume "truthy (jsPath p)"
  then show "injectCode (p\<lparr>jsText := t\<rparr>) temps s = injectCode p temps s"
    by (intro injectCode_cong injectPayload_js_ignores_inline)
next
  assume "truthy (cssPath p) \<and> resetTarget s (the (cssPath p)) = Some (File c m)"
  then show "injectCode p temps s = injectCode (p\<lparr>cssPath := None, cssText := Some c\<rparr>) temps s"
    by (intro injectCode_cong injectPayload_css_reference) auto
next
  assume "truthy (jsPath p) \<and> resetTarget s (the (jsPath p)) = Some (File c m)"
  then show "injectCode p temps s = injectCode (p\<lparr>jsPath := None, jsText := Some c\<rparr>) temps s"
    by (intro injectCode_cong injectPayload_js_reference) auto
next
  assume "truthy (cssPath p) \<and> \<not> isFile (resetTarget s (the (cssPath p)))"
  then show "\<exists>e. fst (injectCode p temps s) = Inl e"
    by (intro injectCode_error injectPayload_bad_css) auto
next
  assume "truthy (jsPath p) \<and> \<not> isFile (resetTarget s (the (jsPath p)))"
  then show "\<exists>e. fst (injectCode p temps s) = Inl e"
    by (intro injectCode_error injectPayload_bad_js) auto
next
  assume "\<not> truthy (cssPath p) \<and> \<not> truthy (cssText p)"
  then show "injectCode p temps s = injectCode (p\<lparr>cssPath := None, cssText := None\<rparr>) temps s"
    by (intro injectCode_cong injectPayload_css_omitted) auto
next
  assume "\<not> truthy (jsPath p) \<and> \<not> truthy (jsText p)"
  then show "injectCode p temps s = injectCode (p\<lparr>jsPath := None, jsText := None\<rparr>) temps s"
    by (intro injectCode_cong injectPayload_js_omitted) auto
next
  assume a: "\<not> isFile (s BACKUP_DIR) \<and> s INDEX_FILE \<noteq> Some Dir \<and> pristine s = Some (File b mb)
      \<and> fresh s (fst temps) \<and> fresh s (snd temps)
      \<and> \<not> truthy (cssPath p) \<and> \<not> truthy (jsPath p)"
  show "injectCode p temps s =
        (if \<not> truthy (cssText p) \<and> \<not> truthy (jsText p)
         then (Inr \<lparr>injected = False, message = NoContentProvided\<rparr>, resetTarget s)
         else
         (case (if truthy (cssText p)
                then insertion ''</head>''
                       [''<style>'', ''/* Injected CSS */'', the (cssText p), ''</style>''] b
                else Inr b) of
            Inl e \<Rightarrow> (Inl e, resetTarget s)
          | Inr c1 \<Rightarrow>
         (case (if truthy (jsText p)
                then insertion ''</body>''
                       [''<script>'', ''// Injected JS'', the (jsText p), ''</script>''] c1
                else Inr c1) of
            Inl e \<Rightarrow>
              (Inl e, if truthy (cssText p)
                      then (resetTarget s)(INDEX_FILE \<mapsto> File c1 MODE_666) else resetTarget s)
          | Inr c2 \<Rightarrow>
              (Inr \<lparr>injected = True, message = InjectionSucceeded\<rparr>,
               (resetTarget s)(INDEX_FILE \<mapsto> File c2 MODE_644)))))"
    using injectCode_inline[of s b mb temps p, unfolded styleBlock_def scriptBlock_def] a
    by blast
qed

theorem injectCode_channel_resolution_witness:
  "injectCode \<lparr>cssText = Some ''x{}'', jsText = Some ''g()'', cssPath = Some ''/m.css'', jsPath = Some ''/m.js''\<rparr>
      (''/tmp/1.tmp'', ''/tmp/2.tmp'')
      [BACKUP_FILE \<mapsto> File ''<head>\<newline></head>\<newline><body>\<newline></body>\<newline>'' 420,
       ''/m.css'' \<mapsto> File ''a{}'' 420, ''/m.js'' \<mapsto> File ''f()'' 420]
   = injectCode \<lparr>cssText = Some ''a{}'', jsText = Some ''f()'', cssPath = None, jsPath = None\<rparr>
      (''/tmp/1.tmp'', ''/tmp/2.tmp'')
      [BACKUP_FILE \<mapsto> File ''<head>\<newline></head>\<newline><body>\<newline></body>\<newline>'' 420,
       ''/m.css'' \<mapsto> File ''a{}'' 420, ''/m.js'' \<mapsto> File ''f()'' 420]
 \<and> fst (injectCode \<lparr>cssText = Some ''x{}'', jsText = Some ''g()'', cssPath = Some ''/m.css'', jsPath = Some ''/m.js''\<rparr>
      (''/tmp/1.tmp'', ''/tmp/2.tmp'')
      [BACKUP_FILE \<mapsto> File ''<head>\<newline></head>\<newline><body>\<newline></body>\<newline>'' 420,
       ''/m.css'' \<mapsto> File ''a{}'' 420, ''/m.js'' \<mapsto> File ''f()'' 420])
   = Inr \<lparr>injected = True, message = InjectionSucceeded\<rparr>
 \<and> snd (injectCode \<lparr>cssText = Some ''x{}'', jsText = Some ''g()'', cssPath = Some ''/m.css'', jsPath = Some ''/m.js''\<rparr>
      (''/tmp/1.tmp'', ''/tmp/2.tmp'')
      [BACKUP_FILE \<mapsto> File ''<head>\<newline></head>\<newline><body>\<newline></body>\<newline>'' 420,
       ''/m.css'' \<mapsto> File ''a{}'' 420, ''/m.js'' \<mapsto> File ''f()'' 420]) INDEX_FILE
   = Some (File ''<head>\<newline><style>\<newline>/* Injected CSS */\<newline>a{}\<newline></style>\<newline></head>\<newline><body>\<newline><script>\<newline>// Injected JS\<newline>f()\<newline></script>\<newline></body>\<newline>'' 420)
 \<and> (\<exists>e. fst (injectCode \<lparr>cssText = Some ''x{}'', jsText = None, cssPath = Some ''/tmp/1.tmp'', jsPath = None\<rparr>
      (''/tmp/1.tmp'', ''/tmp/2.tmp'')
      [BACKUP_FILE \<mapsto> File ''<head>\<newline></head>\<newline><body>\<newline></body>\<newline>'' 420,
       ''/m.css'' \<mapsto> File ''a{}'' 420, ''/m.js'' \<mapsto> File ''f()'' 420]) = Inl e)
 \<and> (\<exists>e. fst (injectCode \<lparr>cssText = None, jsText = Some ''g()'', cssPath = None, jsPath = Some ''/tmp/1.tmp''\<rparr>
      (''/tmp/1.tmp'', ''/tmp/2.tmp'')
      [BACKUP_FILE \<mapsto> File ''<head>\<newline></head>\<newline><body>\<newline></body>\<newline>'' 420,
       ''/m.css'' \<mapsto> File ''a{}'' 420, ''/m.js'' \<mapsto> File ''f()'' 420]) = Inl e)
 \<and> injectCode \<lparr>cssText = Some [], jsText = Some [], cssPath = Some [], jsPath = Some []\<rparr>
      (''/tmp/1.tmp'', ''/tmp/2.tmp'')
      [BACKUP_FILE \<mapsto> File ''<head>\<newline></head>\<newline><body>\<newline></body>\<newline>'' 420,
       ''/m.css'' \<mapsto> File ''a{}'' 420, ''/m.js'' \<mapsto> File ''f()'' 420]
   = injectCode \<lparr>cssText = None, jsText = None, cssPath = None, jsPath = None\<rparr>
      (''/tmp/1.tmp'', ''/tmp/2.tmp'')
      [BACKUP_FILE \<mapsto> File ''<head>\<newline></head>\<newline><body>\<newline></body>\<newline>'' 420,
       ''/m.css'' \<mapsto> File ''a{}'' 420, ''/m.js'' \<mapsto> File ''f()'' 420]
 \<and> fst (injectCode \<lparr>cssText = Some ''a{}'', jsText = Some [], cssPath = Some [], jsPath = None\<rparr>
      (''/tmp/1.tmp'', ''/tmp/2.tmp'')
      [BACKUP_FILE \<mapsto> File ''<head>\<newline></head>\<newline><body>\<newline></body>\<newline>'' 420,
       ''/m.css'' \<mapsto> File ''a{}'' 420, ''/m.js'' \<mapsto> File ''f()'' 420])
   = Inr \<lparr>injected = True, message = InjectionSucceeded\<rparr>
 \<and> snd (injectCode \<lparr>cssText = Some ''a{}'', jsText = Some [], cssPath = Some [], jsPath = None\<rparr>
      (''/tmp/1.tmp'', ''/tmp/2.tmp'')
      [BACKUP_FILE \<mapsto> File ''<head>\<newline></head>\<newline><body>\<newline></body>\<newline>'' 420,
       ''/m.css'' \<mapsto> File ''a{}'' 420, ''/m.js'' \<mapsto> File ''f()'' 420]) INDEX_FILE
   = Some (File ''<head>\<newline><style>\<newline>/* Injected CSS */\<newline>a{}\<newline></style>\<newline></head>\<newline><body>\<newline></body>\<newline>'' 420)
 \<and> fst (injectCode \<lparr>cssText = None, jsText = Some ''f()'', cssPath = None, jsPath = Some []\<rparr>
      (''/tmp/1.tmp'', ''/tmp/2.tmp'')
      [BACKUP_FILE \<mapsto> File ''<head>\<newline></head>\<newline><body>\<newline></body>\<newline>'' 420,
       ''/m.css'' \<mapsto> File ''a{}'' 420, ''/m.js'' \<mapsto> File ''f()'' 420])
   = Inr \<lparr>injected = True, message = InjectionSucceeded\<rparr>
 \<and> snd (injectCode \<lparr>cssText = None, jsText = Some ''f()'', cssPath = None, jsPath = Some []\<rparr>
      (''/tmp/1.tmp'', ''/tmp/2.tmp'')
      [BACKUP_FILE \<mapsto> File ''<head>\<newline></head>\<newline><body>\<newline></body>\<newline>'' 420,
       ''/m.css'' \<mapsto> File ''a{}'' 420, ''/m.js'' \<mapsto> File ''f()'' 420]) INDEX_FILE
   = Some (File ''<head>\<newline></head>\<newline><body>\<newline><script>\<newline>// Injected JS\<newline>f()\<newline></script>\<newline></body>\<newline>'' 420)"
proof -
  note names = example_names example_names[symmetric]
  let ?b = "''<head>\<newline></head>\<newline><body>\<newline></body>\<newline>''"
  let ?s = "[BACKUP_FILE \<mapsto> File ?b 420,
             ''/m.css'' \<mapsto> File ''a{}'' 420, ''/m.js'' \<mapsto> File ''f()'' 420]"
  let ?T = "(''/tmp/1.tmp'', ''/tmp/2.tmp'')"
  let ?p = "\<lparr>cssText = Some ''x{}'', jsText = Some ''g()'', cssPath = Some ''/m.css'', jsPath = Some ''/m.js''\<rparr>"
  let ?pi = "\<lparr>cssText = Some ''a{}'', jsText = Some ''f()'', cssPath = None, jsPath = None\<rparr>"
  have rdy: "\<not> isFile (?s BACKUP_DIR)" "?s INDEX_FILE \<noteq> Some Dir" "pristine ?s = Some (File ?b 420)"
    by (simp_all add: paths_distinct pristine_def names)
  note rt = resetTarget_ready[OF rdy]
  have fr: "fresh ?s ''/tmp/1.tmp''" "fresh ?s ''/tmp/2.tmp''"
    by (simp_all add: fresh_def names)
  \<comment> \<open>the references win over the inline texts, and their files' texts are used\<close>
  have "injectCode ?p ?T ?s = injectCode (?p\<lparr>cssPath := None, cssText := Some ''a{}''\<rparr>) ?T ?s"
    using injectCode_channel_resolution[of ?p _ ?T ?s "''a{}''" 420]
    by (simp add: rt names)
  also have "\<dots> = injectCode (?p\<lparr>cssPath := None, cssText := Some ''a{}'',
                                    jsPath := None, jsText := Some ''f()''\<rparr>) ?T ?s"
    using injectCode_channel_resolution[of "?p\<lparr>cssPath := None, cssText := Some ''a{}''\<rparr>" _ ?T ?s "''f()''" 420]
    by (simp add: rt names)
  finally have 1: "injectCode ?p ?T ?s = injectCode ?pi ?T ?s"
    by simp
  \<comment> \<open>a reference that is not a regular file is an error\<close>
  have 2: "\<exists>e. fst (injectCode \<lparr>cssText = Some ''x{}'', jsText = None, cssPath = Some ''/tmp/1.tmp'', jsPath = None\<rparr> ?T ?s) = Inl e"
    using injectCode_channel_resolution[of "\<lparr>cssText = Some ''x{}'', jsText = None, cssPath = Some ''/tmp/1.tmp'', jsPath = None\<rparr>" _ ?T ?s]
    by (simp add: rt names)
  have 3: "\<exists>e. fst (injectCode \<lparr>cssText = None, jsText = Some ''g()'', cssPath = None, jsPath = Some ''/tmp/1.tmp''\<rparr> ?T ?s) = Inl e"
    using injectCode_channel_resolution[of "\<lparr>cssText = None, jsText = Some ''g()'', cssPath = None, jsPath = Some ''/tmp/1.tmp''\<rparr>" _ ?T ?s]
    by (simp add: rt names)
  \<comment> \<open>empty strings are omitted channels\<close>
  let ?e = "\<lparr>cssText = Some [], jsText = Some [], cssPath = Some [], jsPath = Some []\<rparr>"
  have "injectCode ?e ?T ?s = injectCode (?e\<lparr>cssPath := None, cssText := None\<rparr>) ?T ?s"
    using injectCode_channel_resolution[of ?e _ ?T ?s] by simp
  also have "\<dots> = injectCode (?e\<lparr>cssPath := None, cssText := None, jsPath := None, jsText := None\<rparr>) ?T ?s"
    using injectCode_channel_resolution[of "?e\<lparr>cssPath := None, cssText := None\<rparr>" _ ?T ?s] by simp
  finally have 4: "injectCode ?e ?T ?s = injectCode \<lparr>cssText = None, jsText = None, cssPath = None, jsPath = None\<rparr> ?T ?s"
    by simp
  \<comment> \<open>inline texts are used, each in its block\<close>
  have 5: "injectCode \<lparr>cssText = Some ''a{}'', jsText = Some [], cssPath = Some [], jsPath = None\<rparr> ?T ?s = (Inr \<lparr>injected = True, message = InjectionSucceeded\<rparr>,
      (resetTarget ?s)(INDEX_FILE \<mapsto> File ''<head>\<newline><style>\<newline>/* Injected CSS */\<newline>a{}\<newline></style>\<newline></head>\<newline><body>\<newline></body>\<newline>'' MODE_644))"
    using injectCode_channel_resolution[of "\<lparr>cssText = Some ''a{}'', jsText = Some [], cssPath = Some [], jsPath = None\<rparr>" _ ?T ?s _ _ ?b 420, THEN conjunct2, THEN conjunct2,
        THEN conjunct2, THEN conjunct2, THEN conjunct2, THEN conjunct2, THEN conjunct2,
        THEN conjunct2] rdy fr
    by (simp add: example_insertion_head)
  have 6: "injectCode \<lparr>cssText = None, jsText = Some ''f()'', cssPath = None, jsPath = Some []\<rparr> ?T ?s = (Inr \<lparr>injected = True, message = InjectionSucceeded\<rparr>,
      (resetTarget ?s)(INDEX_FILE \<mapsto> File ''<head>\<newline></head>\<newline><body>\<newline><script>\<newline>// Injected JS\<newline>f()\<newline></script>\<newline></body>\<newline>'' MODE_644))"
    using injectCode_channel_resolution[of "\<lparr>cssText = None, jsText = Some ''f()'', cssPath = None, jsPath = Some []\<rparr>" _ ?T ?s _ _ ?b 420, THEN conjunct2, THEN conjunct2,
        THEN conjunct2, THEN conjunct2, THEN conjunct2, THEN conjunct2, THEN conjunct2,
        THEN conjunct2] rdy fr
    by (simp add: example_insertion_body)
  have 7: "injectCode ?pi ?T ?s = (Inr \<lparr>injected = True, message = InjectionSucceeded\<rparr>,
      (resetTarget ?s)(INDEX_FILE \<mapsto> File ''<head>\<newline><style>\<newline>/* Injected CSS */\<newline>a{}\<newline></style>\<newline></head>\<newline><body>\<newline><script>\<newline>// Injected JS\<newline>f()\<newline></script>\<newline></body>\<newline>'' MODE_644))"
    using injectCode_channel_resolution[of ?pi _ ?T ?s _ _ ?b 420, THEN conjunct2, THEN conjunct2,
        THEN conjunct2, THEN conjunct2, THEN conjunct2, THEN conjunct2, THEN conjunct2,
        THEN conjunct2] rdy fr
    by (simp add: example_insertion_head example_insertion_both)
  from 2 3 4 show ?thesis unfolding 1 5 6 7 by (simp add: MODE_644_def)
qed

end
